theory Spec2Isabelle
  imports Main
begin

section \<open>JavaScript strings and arrays\<close>

text \<open>
  A JavaScript string is a sequence of UTF-16 code units. The model writes it as an
  Isabelle \<open>string\<close>; one \<open>char\<close> stands for one code unit below 256. Everything the
  program does with strings (comparing with \<open>/\<close>, \<open>.\<close> and the space, slicing, joining)
  works code unit by code unit, so it reads the same on such lists.
\<close>

text \<open>\<open>s.startsWith(p)\<close>.\<close>

definition startsWith :: "string \<Rightarrow> string \<Rightarrow> bool" where
  "startsWith s p = (take (length p) s = p)"

text \<open>
  \<open>s.split(c)\<close> for a separator of one code unit: the pieces between the separators,
  empty pieces included; the empty string gives one empty piece.
\<close>

primrec split :: "char \<Rightarrow> string \<Rightarrow> string list" where
  "split c [] = [[]]"
| "split c (x # xs) =
     (if x = c then [] # split c xs
      else (case split c xs of [] \<Rightarrow> [[x]] | piece # pieces \<Rightarrow> (x # piece) # pieces))"

text \<open>\<open>parts.join(sep)\<close>.\<close>

fun joinWith :: "string \<Rightarrow> string list \<Rightarrow> string" where
  "joinWith sep [] = []"
| "joinWith sep [x] = x"
| "joinWith sep (x # y # ys) = x @ sep @ joinWith sep (y # ys)"

text \<open>
  \<open>s.trim()\<close> removes white space and line terminators at both ends. Among the code
  units below 256 these are tab, line feed, vertical tab, form feed, carriage return,
  space and the no-break space.
\<close>

definition isWhiteSpace :: "char \<Rightarrow> bool" where
  "isWhiteSpace c = (of_char c \<in> {9, 10, 11, 12, 13, 32, 160 :: nat})"

definition trim :: "string \<Rightarrow> string" where
  "trim s = rev (dropWhile isWhiteSpace (rev (dropWhile isWhiteSpace s)))"

section \<open>The \<open>path\<close> module of the platform (POSIX flavour)\<close>

text \<open>
  The program calls \<open>path.isAbsolute\<close>, \<open>path.normalize\<close>, \<open>path.join\<close>,
  \<open>path.dirname\<close>, \<open>path.basename\<close> and \<open>path.parse(p).root\<close> of Node.js. They are
  not part of the repository; the definitions below follow \<open>path.posix\<close> of Node.js
  (lib/path.js), where the only separator is \<open>/\<close> and the only root is \<open>/\<close>.
\<close>

definition isAbsolute :: "string \<Rightarrow> bool" where
  "isAbsolute p = (p \<noteq> [] \<and> hd p = CHR ''/'')"

text \<open>
  \<open>normalizeString\<close> walks over the segments between separators and keeps the result
  built so far. Here the result is kept as the list of its segments, the last one first.
  An empty segment and \<open>.\<close> are skipped; \<open>..\<close> removes the last segment of the result
  unless the result is empty or ends with \<open>..\<close>, in which case \<open>..\<close> is appended when
  \<open>allowAboveRoot\<close> holds and dropped otherwise; every other segment is appended.
\<close>

definition normalizeStep :: "bool \<Rightarrow> string list \<Rightarrow> string \<Rightarrow> string list" where
  "normalizeStep allowAboveRoot res seg =
     (if seg = [] \<or> seg = ''.'' then res
      else if seg = ''..'' then
        (case res of
           [] \<Rightarrow> if allowAboveRoot then [''..''] else []
         | l # ls \<Rightarrow>
             if l = ''..'' then (if allowAboveRoot then ''..'' # res else res)
             else ls)
      else seg # res)"

definition normalizeString :: "string \<Rightarrow> bool \<Rightarrow> string" where
  "normalizeString p allowAboveRoot =
     joinWith ''/'' (rev (foldl (normalizeStep allowAboveRoot) [] (split CHR ''/'' p)))"

definition normalizePath :: "string \<Rightarrow> string" where
  "normalizePath p =
     (if p = [] then ''.''
      else
        let isAbs = (hd p = CHR ''/'');
            trailingSeparator = (last p = CHR ''/'');
            q = normalizeString p (\<not> isAbs)
        in if q = [] then (if isAbs then ''/'' else if trailingSeparator then ''./'' else ''.'')
           else
             let q' = (if trailingSeparator then q @ ''/'' else q)
             in if isAbs then ''/'' @ q' else q')"

text \<open>\<open>path.join(...args)\<close>: the non-empty arguments joined by \<open>/\<close>, then normalized.\<close>

definition join :: "string list \<Rightarrow> string" where
  "join args =
     (let joined = filter (\<lambda>a. a \<noteq> []) args
      in if joined = [] then ''.'' else normalizePath (joinWith ''/'' joined))"

text \<open>
  \<open>path.dirname(p)\<close> scans from the end down to index 1: it passes the trailing
  separators, then the last segment, and cuts at the separator before it.
  \<open>dirnameEnd\<close> is the index of that separator, if there is one.
\<close>

definition dirnameEnd :: "string \<Rightarrow> nat option" where
  "dirnameEnd p =
     (let u = dropWhile (\<lambda>c. c \<noteq> CHR ''/'')
                (dropWhile (\<lambda>c. c = CHR ''/'') (rev (tl p)))
      in if u = [] then None else Some (length u))"

definition dirname :: "string \<Rightarrow> string" where
  "dirname p =
     (if p = [] then ''.''
      else
        let hasRoot = (hd p = CHR ''/'')
        in case dirnameEnd p of
             None \<Rightarrow> if hasRoot then ''/'' else ''.''
           | Some e \<Rightarrow> if hasRoot \<and> e = 1 then ''//'' else take e p)"

text \<open>\<open>path.basename(p)\<close> without a suffix: the last segment, trailing separators passed.\<close>

definition basename :: "string \<Rightarrow> string" where
  "basename p =
     rev (takeWhile (\<lambda>c. c \<noteq> CHR ''/'') (dropWhile (\<lambda>c. c = CHR ''/'') (rev p)))"

text \<open>\<open>path.parse(p).root\<close>.\<close>

definition rootOf :: "string \<Rightarrow> string" where
  "rootOf p = (if isAbsolute p then ''/'' else [])"

section \<open>The path resolver\<close>

text \<open>
  \<open>safeResolve(target)\<close> reads the global \<open>cwd\<close> and calls four functions of the
  platform's \<open>path\<close> module. Which module that is depends on the host: \<open>path.posix\<close>
  where the only root is \<open>/\<close>, \<open>path.win32\<close> where every drive has its own root. The
  body of \<open>safeResolve\<close> is therefore written once over the module it is given;
  \<open>safeResolveOn pm cwd target\<close> takes the module and \<open>cwd\<close> as arguments.
\<close>

record pathModule =
  pathIsAbsolute :: "string \<Rightarrow> bool"
  pathNormalize :: "string \<Rightarrow> string"
  pathJoin :: "string list \<Rightarrow> string"
  pathRoot :: "string \<Rightarrow> string"

definition safeResolveOn :: "pathModule \<Rightarrow> string \<Rightarrow> string \<Rightarrow> string" where
  "safeResolveOn pm cwd target =
     (let resolved = (if pathIsAbsolute pm target then pathNormalize pm target
                      else pathNormalize pm (pathJoin pm [cwd, target]));
          rootOfCwd = pathRoot pm cwd
      in if \<not> startsWith resolved rootOfCwd then rootOfCwd else resolved)"

text \<open>The module of a POSIX host, and \<open>safeResolve\<close> on such a host.\<close>

definition posixPath :: pathModule where
  "posixPath =
     \<lparr> pathIsAbsolute = isAbsolute, pathNormalize = normalizePath,
       pathJoin = join, pathRoot = rootOf \<rparr>"

definition safeResolve :: "string \<Rightarrow> string \<Rightarrow> string" where
  "safeResolve cwd target = safeResolveOn posixPath cwd target"

subsection \<open>A host with drives\<close>

text \<open>
  On a host with drives the root of a path is its drive: \<open>C:\<close> followed by a backslash.
  The definitions below follow \<open>path.win32\<close> of Node.js on the paths that are written
  with a drive letter, a colon and segments separated by backslashes, and on the relative
  paths written with backslashes. Paths of other forms (UNC paths, drive-relative paths,
  forward slashes as separators) are outside this fragment. The fragment is what makes
  the boundary check of \<open>safeResolve\<close> matter: a target on another drive does not start
  with the root of \<open>cwd\<close>.
\<close>

definition backslash :: char where
  "backslash = CHR 0x5C"

definition isDriveLetter :: "char \<Rightarrow> bool" where
  "isDriveLetter c =
     ((65 \<le> (of_char c :: nat) \<and> (of_char c :: nat) \<le> 90) \<or>
      (97 \<le> (of_char c :: nat) \<and> (of_char c :: nat) \<le> 122))"

definition driveIsAbsolute :: "string \<Rightarrow> bool" where
  "driveIsAbsolute p =
     (case p of
        d # c # b # _ \<Rightarrow> isDriveLetter d \<and> c = CHR '':'' \<and> b = backslash
      | _ \<Rightarrow> False)"

definition driveRoot :: "string \<Rightarrow> string" where
  "driveRoot p = (if driveIsAbsolute p then take 3 p else [])"

definition driveNormalize :: "string \<Rightarrow> string" where
  "driveNormalize p =
     (if p = [] then ''.''
      else
        let isAbs = driveIsAbsolute p;
            body = (if isAbs then drop 3 p else p);
            tail = joinWith [backslash]
                     (rev (foldl (normalizeStep (\<not> isAbs)) [] (split backslash body)));
            tail1 = (if tail = [] \<and> \<not> isAbs then ''.'' else tail);
            tail2 = (if tail1 \<noteq> [] \<and> last p = backslash then tail1 @ [backslash] else tail1)
        in if isAbs then take 2 p @ [backslash] @ tail2 else tail2)"

definition driveJoin :: "string list \<Rightarrow> string" where
  "driveJoin args =
     (let joined = filter (\<lambda>a. a \<noteq> []) args
      in if joined = [] then ''.'' else driveNormalize (joinWith [backslash] joined))"

definition drivePath :: pathModule where
  "drivePath =
     \<lparr> pathIsAbsolute = driveIsAbsolute, pathNormalize = driveNormalize,
       pathJoin = driveJoin, pathRoot = driveRoot \<rparr>"

section \<open>The collaborators\<close>

text \<open>
  The file system, the streams, the digest and the facts about the host are outside the
  program. The model takes them as a record of functions over an arbitrary type \<open>'fs\<close> of
  file-system states, so that every theorem holds whatever they answer.
\<close>

datatype kind = RegularFile | Directory | OtherKind

text \<open>
  How a \<open>source \<rightarrow> transform \<rightarrow> sink\<close> pipeline of \<open>compressFile\<close> and \<open>decompressFile\<close>
  ends. The program listens for \<open>finish\<close> on the sink and for \<open>error\<close> on the source and the
  sink only: an error of the transform stage has no listener, so it is thrown as an uncaught
  exception and ends the process.
\<close>

datatype pipeResult = Finished | Rejected | Unhandled

record 'fs capabilities =
  stat :: "'fs \<Rightarrow> string \<Rightarrow> kind option"
  readdir :: "'fs \<Rightarrow> string \<Rightarrow> (string \<times> kind) list option"
  openExclusive :: "'fs \<Rightarrow> string \<Rightarrow> bool \<times> 'fs"
  mkdir :: "'fs \<Rightarrow> string \<Rightarrow> bool \<times> 'fs"
  rename :: "'fs \<Rightarrow> string \<Rightarrow> string \<Rightarrow> bool \<times> 'fs"
  unlink :: "'fs \<Rightarrow> string \<Rightarrow> bool \<times> 'fs"
  readStream :: "'fs \<Rightarrow> string \<Rightarrow> string \<times> bool"
  pipeCopy :: "'fs \<Rightarrow> string \<Rightarrow> string \<Rightarrow> bool \<times> 'fs"
  pipeCompress :: "'fs \<Rightarrow> string \<Rightarrow> string \<Rightarrow> pipeResult \<times> 'fs"
  pipeDecompress :: "'fs \<Rightarrow> string \<Rightarrow> string \<Rightarrow> pipeResult \<times> 'fs"
  sha256Hex :: "string \<Rightarrow> string"
  localeSort :: "string list \<Rightarrow> string list"
  osEOL :: string
  osCpus :: "(string \<times> string) list"
  osHomedir :: "string option"
  osUsername :: "string option"
  processArch :: string
  usernameForMessages :: string

text \<open>
  \<^item> \<open>stat\<close>: \<open>fsPromises.stat\<close>; \<open>None\<close> when it rejects (the entry is missing, for one).
  \<^item> \<open>readdir\<close>: \<open>fsPromises.readdir\<close> with file types; \<open>None\<close> when it rejects.
  \<^item> \<open>openExclusive\<close>: \<open>fsPromises.open(target, 'wx')\<close> and the close of the handle.
  \<^item> \<open>mkdir\<close>, \<open>rename\<close>, \<open>unlink\<close>: the calls of these names; \<open>False\<close> when they reject.
  \<^item> \<open>readStream\<close>: the data a read stream delivers, and whether it then ends
    (\<open>True\<close>, the event \<open>end\<close>) or fails (\<open>False\<close>, the event \<open>error\<close>).
  \<^item> \<open>pipeCopy\<close>: a read stream piped into a write stream; \<open>True\<close> on \<open>finish\<close>.
  \<^item> \<open>osCpus\<close>: for each processor its model and the text of \<open>(speed / 1000).toFixed(2)\<close>.
  \<^item> \<open>osHomedir\<close>, \<open>osUsername\<close>: \<open>None\<close> when the query throws.
\<close>

datatype fsCall =
    Stat string
  | Readdir string
  | OpenExclusive string
  | Mkdir string
  | Rename string string
  | Unlink string
  | ReadStream string
  | PipeCopy string string
  | PipeCompress string string
  | PipeDecompress string string

text \<open>What reaches standard output: a line of \<open>console.log\<close>, or data piped into it.\<close>

datatype printed = Log string | Piped string

section \<open>The session\<close>

text \<open>
  The global \<open>cwd\<close>, the state of the file system, what has been printed and the trace
  of the file-system capabilities invoked so far.
\<close>

record 'fs session =
  cwd :: string
  fs :: 'fs
  out :: "printed list"
  calls :: "fsCall list"

text \<open>
  How a call ends: the promise is fulfilled (\<open>Returned\<close>), the promise never settles
  (\<open>Pending\<close>), the process has exited through \<open>process.exit(0)\<close> (\<open>Exited\<close>), or an
  uncaught exception has ended it (\<open>Crashed\<close>).
\<close>

datatype 'a outcome = Returned 'a | Pending 'a | Exited 'a | Crashed 'a

primrec stateOf :: "'a outcome \<Rightarrow> 'a" where
  "stateOf (Returned s) = s"
| "stateOf (Pending s) = s"
| "stateOf (Exited s) = s"
| "stateOf (Crashed s) = s"

definition consoleLog :: "string \<Rightarrow> 'fs session \<Rightarrow> 'fs session" where
  "consoleLog l s = s\<lparr>out := out s @ [Log l]\<rparr>"

definition cwdLine :: "string \<Rightarrow> string" where
  "cwdLine d = ''You are currently in '' @ d"

definition printCwd :: "'fs session \<Rightarrow> 'fs session" where
  "printCwd s = consoleLog (cwdLine (cwd s)) s"

definition invalidInput :: "'fs session \<Rightarrow> 'fs session" where
  "invalidInput s = consoleLog ''Invalid input'' s"

definition operationFailed :: "'fs session \<Rightarrow> 'fs session" where
  "operationFailed s = consoleLog ''Operation failed'' s"

definition invoke :: "fsCall \<Rightarrow> 'fs session \<Rightarrow> 'fs session" where
  "invoke c s = s\<lparr>calls := calls s @ [c]\<rparr>"

section \<open>The handlers\<close>

text \<open>
  The source holds the program more than once; the copies agree on the functions they
  share. The model follows the complete copy, the one that defines every handler its
  dispatcher calls.
\<close>

definition listDir :: "'fs capabilities \<Rightarrow> 'fs session \<Rightarrow> 'fs session outcome" where
  "listDir caps s =
     (let s1 = invoke (Readdir (cwd s)) s
      in case readdir caps (fs s) (cwd s) of
           None \<Rightarrow> Returned (operationFailed s1)
         | Some items \<Rightarrow>
             let dirs = localeSort caps (map fst (filter (\<lambda>i. snd i = Directory) items));
                 files = localeSort caps (map fst (filter (\<lambda>i. snd i = RegularFile) items));
                 s2 = foldl (\<lambda>t d. consoleLog (d @ '' <DIR>'') t) s1 dirs
             in Returned (foldl (\<lambda>t f. consoleLog (f @ '' <FILE>'') t) s2 files))"

definition goUp :: "'fs session \<Rightarrow> 'fs session outcome" where
  "goUp s =
     (let parent = dirname (cwd s);
          rootOfCwd = rootOf (cwd s)
      in if cwd s = rootOfCwd then Returned s
         else Returned (s\<lparr>cwd := parent\<rparr>))"

definition changeDir :: "'fs capabilities \<Rightarrow> string \<Rightarrow> 'fs session \<Rightarrow> 'fs session outcome" where
  "changeDir caps arg s =
     (if arg = [] then Returned (invalidInput s)
      else
        let dest = safeResolve (cwd s) arg;
            s1 = invoke (Stat dest) s
        in case stat caps (fs s) dest of
             None \<Rightarrow> Returned (operationFailed s1)
           | Some st \<Rightarrow>
               if st \<noteq> Directory then Returned (invalidInput s1)
               else
                 let rootOfCwd = rootOf (cwd s)
                 in if \<not> startsWith dest rootOfCwd then Returned s1
                    else Returned (s1\<lparr>cwd := dest\<rparr>))"

text \<open>
  \<open>catFile\<close> waits for the event \<open>end\<close> of the read stream only. When the stream fails,
  the listener for \<open>error\<close> prints the failure, \<open>end\<close> never comes and the promise the
  handler awaits is never fulfilled.
\<close>

definition catFile :: "'fs capabilities \<Rightarrow> string \<Rightarrow> 'fs session \<Rightarrow> 'fs session outcome" where
  "catFile caps arg s =
     (if arg = [] then Returned (invalidInput s)
      else
        let target = safeResolve (cwd s) arg;
            s1 = invoke (Stat target) s
        in case stat caps (fs s) target of
             None \<Rightarrow> Returned (operationFailed s1)
           | Some st \<Rightarrow>
               if st \<noteq> RegularFile then Returned (invalidInput s1)
               else
                 let s2 = invoke (ReadStream target) s1;
                     (content, ended) = readStream caps (fs s) target;
                     s3 = s2\<lparr>out := out s2 @ [Piped content]\<rparr>
                 in if ended then Returned (consoleLog [] s3)
                    else Pending (operationFailed s3))"

definition addFile :: "'fs capabilities \<Rightarrow> string \<Rightarrow> 'fs session \<Rightarrow> 'fs session outcome" where
  "addFile caps arg s =
     (if arg = [] then Returned (invalidInput s)
      else
        let target = join [cwd s, arg];
            s1 = invoke (OpenExclusive target) s;
            (ok, fs') = openExclusive caps (fs s) target;
            s2 = s1\<lparr>fs := fs'\<rparr>
        in if ok then Returned s2 else Returned (operationFailed s2))"

definition makeDir :: "'fs capabilities \<Rightarrow> string \<Rightarrow> 'fs session \<Rightarrow> 'fs session outcome" where
  "makeDir caps arg s =
     (if arg = [] then Returned (invalidInput s)
      else
        let target = join [cwd s, arg];
            s1 = invoke (Mkdir target) s;
            (ok, fs') = mkdir caps (fs s) target;
            s2 = s1\<lparr>fs := fs'\<rparr>
        in if ok then Returned s2 else Returned (operationFailed s2))"

text \<open>
  \<open>parts[1]\<close> is \<open>undefined\<close> when the line has no second token: the first argument of
  the handlers with two arguments is an \<open>option\<close>, and \<open>!oldP\<close> holds for \<open>None\<close> and
  for the empty string.
\<close>

definition falsy :: "string option \<Rightarrow> bool" where
  "falsy a = (case a of None \<Rightarrow> True | Some v \<Rightarrow> v = [])"

definition renameFile ::
  "'fs capabilities \<Rightarrow> string option \<Rightarrow> string \<Rightarrow> 'fs session \<Rightarrow> 'fs session outcome" where
  "renameFile caps oldP newName s =
     (if falsy oldP \<or> newName = [] then Returned (invalidInput s)
      else
        let src = safeResolve (cwd s) (the oldP);
            dest = join [dirname src, newName];
            s1 = invoke (Rename src dest) s;
            (ok, fs') = rename caps (fs s) src dest;
            s2 = s1\<lparr>fs := fs'\<rparr>
        in if ok then Returned s2 else Returned (operationFailed s2))"

text \<open>
  \<open>copyFile\<close> and \<open>moveFile\<close>: a \<open>stat\<close> of the source that rejects is caught by the
  handler's \<open>catch\<close>; a \<open>stat\<close> of the destination that rejects is turned into \<open>null\<close>.
\<close>

definition copyFile ::
  "'fs capabilities \<Rightarrow> string option \<Rightarrow> string \<Rightarrow> 'fs session \<Rightarrow> 'fs session outcome" where
  "copyFile caps srcArg destDirArg s =
     (if falsy srcArg \<or> destDirArg = [] then Returned (invalidInput s)
      else
        let src = safeResolve (cwd s) (the srcArg);
            destDir = safeResolve (cwd s) destDirArg;
            s1 = invoke (Stat src) s
        in case stat caps (fs s) src of
             None \<Rightarrow> Returned (operationFailed s1)
           | Some st \<Rightarrow>
               if st \<noteq> RegularFile then Returned (invalidInput s1)
               else
                 let s2 = invoke (Stat destDir) s1
                 in if stat caps (fs s) destDir \<noteq> Some Directory then Returned (invalidInput s2)
                    else
                      let destPath = join [destDir, basename src];
                          s3 = invoke (PipeCopy src destPath) s2;
                          (ok, fs') = pipeCopy caps (fs s) src destPath;
                          s4 = s3\<lparr>fs := fs'\<rparr>
                      in if ok then Returned s4 else Returned (operationFailed s4))"

definition moveFile ::
  "'fs capabilities \<Rightarrow> string option \<Rightarrow> string \<Rightarrow> 'fs session \<Rightarrow> 'fs session outcome" where
  "moveFile caps srcArg destDirArg s =
     (if falsy srcArg \<or> destDirArg = [] then Returned (invalidInput s)
      else
        let src = safeResolve (cwd s) (the srcArg);
            destDir = safeResolve (cwd s) destDirArg;
            s1 = invoke (Stat src) s
        in case stat caps (fs s) src of
             None \<Rightarrow> Returned (operationFailed s1)
           | Some st \<Rightarrow>
               if st \<noteq> RegularFile then Returned (invalidInput s1)
               else
                 let s2 = invoke (Stat destDir) s1
                 in if stat caps (fs s) destDir \<noteq> Some Directory then Returned (invalidInput s2)
                    else
                      let destPath = join [destDir, basename src];
                          s3 = invoke (Rename src destPath) s2;
                          (renamed, fs1) = rename caps (fs s) src destPath;
                          s4 = s3\<lparr>fs := fs1\<rparr>
                      in if renamed then Returned s4
                         else
                           let s5 = invoke (PipeCopy src destPath) s4;
                               (copied, fs2) = pipeCopy caps fs1 src destPath;
                               s6 = s5\<lparr>fs := fs2\<rparr>
                           in if \<not> copied then Returned (operationFailed s6)
                              else
                                let s7 = invoke (Unlink src) s6;
                                    (removed, fs3) = unlink caps fs2 src;
                                    s8 = s7\<lparr>fs := fs3\<rparr>
                                in if removed then Returned s8
                                   else Returned (operationFailed s8))"

definition removeFile :: "'fs capabilities \<Rightarrow> string \<Rightarrow> 'fs session \<Rightarrow> 'fs session outcome" where
  "removeFile caps arg s =
     (if arg = [] then Returned (invalidInput s)
      else
        let target = safeResolve (cwd s) arg;
            s1 = invoke (Stat target) s
        in case stat caps (fs s) target of
             None \<Rightarrow> Returned (operationFailed s1)
           | Some st \<Rightarrow>
               if st \<noteq> RegularFile then Returned (invalidInput s1)
               else
                 let s2 = invoke (Unlink target) s1;
                     (ok, fs') = unlink caps (fs s) target;
                     s3 = s2\<lparr>fs := fs'\<rparr>
                 in if ok then Returned s3 else Returned (operationFailed s3))"

text \<open>Decimal digits of a number, as a template literal prints it.\<close>

fun showNat :: "nat \<Rightarrow> string" where
  "showNat n =
     (if n < 10 then [char_of (48 + n)]
      else showNat (n div 10) @ [char_of (48 + n mod 10)])"

text \<open>The lines of \<open>os --cpus\<close> after the total; \<open>i\<close> is the index of the first one.\<close>

fun cpuLines :: "nat \<Rightarrow> (string \<times> string) list \<Rightarrow> string list" where
  "cpuLines i [] = []"
| "cpuLines i ((model, ghz) # cs) =
     (''CPU '' @ showNat (i + 1) @ '': '' @ trim model @ '' - '' @ ghz @ ''GHz'')
       # cpuLines (i + 1) cs"

text \<open>
  \<open>osInfo(option)\<close> is synchronous; \<open>option\<close> is \<open>parts[1]\<close>, \<open>undefined\<close> when missing.
  A query that throws is caught by the \<open>catch\<close> of the function.
\<close>

definition osInfo :: "'fs capabilities \<Rightarrow> string option \<Rightarrow> 'fs session \<Rightarrow> 'fs session" where
  "osInfo caps option s =
     (if option = Some ''--EOL'' then
        consoleLog (if osEOL caps = [CHR 0x0A] then [CHR 0x5C, CHR ''n'']
                    else [CHR 0x5C, CHR ''r'', CHR 0x5C, CHR ''n'']) s
      else if option = Some ''--cpus'' then
        foldl (\<lambda>t l. consoleLog l t)
          (consoleLog (''Total CPUs: '' @ showNat (length (osCpus caps))) s)
          (cpuLines 0 (osCpus caps))
      else if option = Some ''--homedir'' then
        (case osHomedir caps of None \<Rightarrow> operationFailed s | Some h \<Rightarrow> consoleLog h s)
      else if option = Some ''--username'' then
        (case osUsername caps of None \<Rightarrow> operationFailed s | Some u \<Rightarrow> consoleLog u s)
      else if option = Some ''--architecture'' then
        consoleLog (processArch caps) s
      else invalidInput s)"

definition hashFile :: "'fs capabilities \<Rightarrow> string \<Rightarrow> 'fs session \<Rightarrow> 'fs session outcome" where
  "hashFile caps arg s =
     (if arg = [] then Returned (invalidInput s)
      else
        let target = safeResolve (cwd s) arg;
            s1 = invoke (Stat target) s
        in case stat caps (fs s) target of
             None \<Rightarrow> Returned (operationFailed s1)
           | Some st \<Rightarrow>
               if st \<noteq> RegularFile then Returned (invalidInput s1)
               else
                 let s2 = invoke (ReadStream target) s1;
                     (content, ended) = readStream caps (fs s) target
                 in if ended then Returned (consoleLog (sha256Hex caps content) s2)
                    else Returned (operationFailed s2))"

text \<open>
  \<open>compressFile\<close> and \<open>decompressFile\<close> differ in the transform stage only; the model
  writes their common body once, over the pipeline and the call it records.
\<close>

definition transformFile ::
  "('fs \<Rightarrow> string \<Rightarrow> string \<Rightarrow> pipeResult \<times> 'fs) \<Rightarrow> (string \<Rightarrow> string \<Rightarrow> fsCall) \<Rightarrow>
   'fs capabilities \<Rightarrow> string option \<Rightarrow> string \<Rightarrow> 'fs session \<Rightarrow> 'fs session outcome" where
  "transformFile pipeline call caps srcArg destArg s =
     (if falsy srcArg \<or> destArg = [] then Returned (invalidInput s)
      else
        let src = safeResolve (cwd s) (the srcArg);
            destPath = safeResolve (cwd s) destArg;
            s1 = invoke (Stat src) s
        in case stat caps (fs s) src of
             None \<Rightarrow> Returned (operationFailed s1)
           | Some st \<Rightarrow>
               if st \<noteq> RegularFile then Returned (invalidInput s1)
               else
                 let destDir = dirname destPath;
                     s2 = invoke (Stat destDir) s1
                 in if stat caps (fs s) destDir \<noteq> Some Directory then Returned (invalidInput s2)
                    else
                      let s3 = invoke (call src destPath) s2;
                          (r, fs') = pipeline (fs s) src destPath;
                          s4 = s3\<lparr>fs := fs'\<rparr>
                      in (case r of
                            Finished \<Rightarrow> Returned s4
                          | Rejected \<Rightarrow> Returned (operationFailed s4)
                          | Unhandled \<Rightarrow> Crashed s4))"

definition compressFile ::
  "'fs capabilities \<Rightarrow> string option \<Rightarrow> string \<Rightarrow> 'fs session \<Rightarrow> 'fs session outcome" where
  "compressFile caps = transformFile (pipeCompress caps) PipeCompress caps"

definition decompressFile ::
  "'fs capabilities \<Rightarrow> string option \<Rightarrow> string \<Rightarrow> 'fs session \<Rightarrow> 'fs session outcome" where
  "decompressFile caps = transformFile (pipeDecompress caps) PipeDecompress caps"

section \<open>The command dispatcher\<close>

definition exitAndCleanup :: "'fs capabilities \<Rightarrow> 'fs session \<Rightarrow> 'fs session outcome" where
  "exitAndCleanup caps s =
     Exited (consoleLog (''Thank you for using File Manager, '' @ usernameForMessages caps
                           @ '', goodbye!'') s)"

text \<open>
  \<open>parts\<close>: the trimmed line split at the space character, the empty pieces removed.
  \<open>parts.slice(k).join(' ')\<close> is \<open>restOfLine k parts\<close>; \<open>parts[1]\<close> is \<open>second parts\<close>.
\<close>

definition tokens :: "string \<Rightarrow> string list" where
  "tokens trimmed = filter (\<lambda>t. t \<noteq> []) (split CHR '' '' trimmed)"

definition restOfLine :: "nat \<Rightarrow> string list \<Rightarrow> string" where
  "restOfLine k parts = joinWith '' '' (drop k parts)"

definition second :: "string list \<Rightarrow> string option" where
  "second parts = (if 1 < length parts then Some (parts ! 1) else None)"

text \<open>\<open>cmd = parts[0]\<close>, \<open>undefined\<close> when there is no token.\<close>

definition commandName :: "string list \<Rightarrow> string option" where
  "commandName parts = (if parts = [] then None else Some (hd parts))"

text \<open>
  The \<open>switch\<close> of \<open>handleLine\<close>. The handlers catch what their collaborators throw, so the
  \<open>catch\<close> around the \<open>switch\<close> is never entered.
\<close>

definition dispatch ::
  "'fs capabilities \<Rightarrow> string list \<Rightarrow> 'fs session \<Rightarrow> 'fs session outcome" where
  "dispatch caps parts s =
     (let cmd = commandName parts
      in if cmd = Some ''up'' then goUp s
         else if cmd = Some ''cd'' then changeDir caps (restOfLine 1 parts) s
         else if cmd = Some ''ls'' then listDir caps s
         else if cmd = Some ''cat'' then catFile caps (restOfLine 1 parts) s
         else if cmd = Some ''add'' then addFile caps (restOfLine 1 parts) s
         else if cmd = Some ''mkdir'' then makeDir caps (restOfLine 1 parts) s
         else if cmd = Some ''rn'' then renameFile caps (second parts) (restOfLine 2 parts) s
         else if cmd = Some ''cp'' then copyFile caps (second parts) (restOfLine 2 parts) s
         else if cmd = Some ''mv'' then moveFile caps (second parts) (restOfLine 2 parts) s
         else if cmd = Some ''rm'' then removeFile caps (restOfLine 1 parts) s
         else if cmd = Some ''os'' then Returned (osInfo caps (second parts) s)
         else if cmd = Some ''hash'' then hashFile caps (restOfLine 1 parts) s
         else if cmd = Some ''compress'' then
           compressFile caps (second parts) (restOfLine 2 parts) s
         else if cmd = Some ''decompress'' then
           decompressFile caps (second parts) (restOfLine 2 parts) s
         else Returned (invalidInput s))"

text \<open>
  \<open>handleLine\<close>: the \<open>finally\<close> block prints the working directory once the \<open>switch\<close> has
  been left, that is once the handler's promise is fulfilled.
\<close>

definition handleLine :: "'fs capabilities \<Rightarrow> string \<Rightarrow> 'fs session \<Rightarrow> 'fs session outcome" where
  "handleLine caps line s =
     (let trimmed = trim line
      in if trimmed = [] then Returned s
         else if trimmed = ''.exit'' \<or> trimmed = ''exit'' then exitAndCleanup caps s
         else
           case dispatch caps (tokens trimmed) s of
             Returned s' \<Rightarrow> Returned (printCwd s')
           | other \<Rightarrow> other)"

section \<open>Paths below the root\<close>

text \<open>
  A proper name is a segment that names an entry: it is not empty, holds no separator
  and is neither \<open>.\<close> nor \<open>..\<close>. \<open>absPath names trailing\<close> is the absolute path that
  descends from the root through the given names, with a separator at the end when
  \<open>trailing\<close> holds and there is a name.
\<close>

definition properName :: "string \<Rightarrow> bool" where
  "properName seg = (seg \<noteq> [] \<and> CHR ''/'' \<notin> set seg \<and> seg \<noteq> ''.'' \<and> seg \<noteq> ''..'')"

definition absPath :: "string list \<Rightarrow> bool \<Rightarrow> string" where
  "absPath names trailing =
     ''/'' @ joinWith ''/'' names @ (if trailing \<and> names \<noteq> [] then ''/'' else [])"

text \<open>
  \<open>p\<close> is \<open>root\<close> itself or a descendant of it: \<open>p\<close> starts with \<open>root\<close>, and what
  follows is made of proper names and separators only, so that no segment leads back up.
\<close>

definition rootOrDescendant :: "string \<Rightarrow> string \<Rightarrow> bool" where
  "rootOrDescendant root p =
     (startsWith p root \<and>
      list_all properName (filter (\<lambda>seg. seg \<noteq> []) (split CHR ''/'' (drop (length root) p))))"

section \<open>Sequences of navigation\<close>

datatype navigation = Up | Cd string

text \<open>Both handlers always return, so the next operation starts from the state they leave.\<close>

fun navigate :: "'fs capabilities \<Rightarrow> navigation list \<Rightarrow> 'fs session \<Rightarrow> 'fs session" where
  "navigate caps [] s = s"
| "navigate caps (Up # ops) s = navigate caps ops (stateOf (goUp s))"
| "navigate caps (Cd arg # ops) s = navigate caps ops (stateOf (changeDir caps arg s))"

text \<open>The invariant of the working directory on a host whose only root is \<open>/\<close>.\<close>

definition confined :: "'fs session \<Rightarrow> bool" where
  "confined s = (isAbsolute (cwd s) \<and> rootOrDescendant ''/'' (cwd s))"

section \<open>An example host\<close>

text \<open>
  A small host on which the theorems are evaluated: the file system is a list of
  entries, each a path with its kind. The file \<open>locked.txt\<close> exists but cannot be read:
  its read stream fails on opening.
\<close>

definition exampleCaps :: "(string \<times> kind) list capabilities" where
  "exampleCaps =
     \<lparr> stat = (\<lambda>f p. map_of f p),
       readdir = (\<lambda>f p. if map_of f p = Some Directory then Some [] else None),
       openExclusive = (\<lambda>f p. if map_of f p = None then (True, (p, RegularFile) # f)
                               else (False, f)),
       mkdir = (\<lambda>f p. if map_of f p = None then (True, (p, Directory) # f) else (False, f)),
       rename = (\<lambda>f a b. case map_of f a of
                             None \<Rightarrow> (False, f)
                           | Some k \<Rightarrow> (True, (b, k) # filter (\<lambda>e. fst e \<noteq> a) f)),
       unlink = (\<lambda>f p. if map_of f p = Some RegularFile
                        then (True, filter (\<lambda>e. fst e \<noteq> p) f) else (False, f)),
       readStream = (\<lambda>f p. ([], p \<noteq> ''/home/u/locked.txt'')),
       pipeCopy = (\<lambda>f a b. (True, (b, RegularFile) # f)),
       pipeCompress = (\<lambda>f a b. (Finished, (b, RegularFile) # f)),
       pipeDecompress = (\<lambda>f a b. (Finished, (b, RegularFile) # f)),
       sha256Hex = (\<lambda>d. ''e3b0c44298fc1c149afbf4c8996fb92427ae41e4649b934ca495991b7852b855''),
       localeSort = (\<lambda>names. names),
       osEOL = [CHR 0x0A],
       osCpus = [(''Example CPU'', ''2.40'')],
       osHomedir = Some ''/home/u'',
       osUsername = Some ''u'',
       processArch = ''x64'',
       usernameForMessages = ''u'' \<rparr>"

definition exampleSession :: "(string \<times> kind) list session" where
  "exampleSession =
     \<lparr> cwd = ''/home/u'',
       fs = [(''/'', Directory), (''/home'', Directory), (''/home/u'', Directory),
             (''/home/u/sub'', Directory), (''/home/u/a.txt'', RegularFile),
             (''/home/u/locked.txt'', RegularFile)],
       out = [],
       calls = [] \<rparr>"

section \<open>Tokens and reports\<close>

lemma split_nonempty: "split c xs \<noteq> []"
  by (induction xs) (auto split: list.splits)

text \<open>\<open>safeResolve\<close> on a POSIX host, with the functions of the module written out.\<close>

lemma safeResolve_unfold:
  "safeResolve dir target =
     (let resolved = (if isAbsolute target then normalizePath target
                      else normalizePath (join [dir, target]));
          rootOfCwd = rootOf dir
      in if \<not> startsWith resolved rootOfCwd then rootOfCwd else resolved)"
  by (simp add: safeResolve_def safeResolveOn_def posixPath_def)

lemma tokens_Nil: "tokens [] = []"
  by (simp add: tokens_def)

lemma tokens_exit: "tokens ''exit'' = [''exit'']" "tokens ''.exit'' = [''.exit'']"
  by (simp_all add: tokens_def)

lemma tokens_no_empty: "[] \<notin> set (tokens t)"
  by (simp add: tokens_def)

lemma joinWith_nonempty: "x \<noteq> [] \<Longrightarrow> joinWith sep (x # xs) \<noteq> []"
  by (cases xs) simp_all

lemma restOfLine_tokens:
  assumes "tokens t = cmd # a # as"
  shows "restOfLine 1 (cmd # a # as) \<noteq> []"
proof -
  have "a \<noteq> []" using tokens_no_empty [of t] assms by auto
  then show ?thesis by (simp add: restOfLine_def joinWith_nonempty)
qed

text \<open>A line whose first token is not an exit keyword reaches the \<open>switch\<close>.\<close>

lemma handleLine_dispatch:
  assumes "tokens (trim line) = cmd # args" and "cmd \<noteq> ''exit''" and "cmd \<noteq> ''.exit''"
  shows "handleLine caps line s =
           (case dispatch caps (cmd # args) s of
              Returned s' \<Rightarrow> Returned (printCwd s')
            | other \<Rightarrow> other)"
proof -
  have "trim line \<noteq> []" using assms(1) tokens_Nil by auto
  moreover have "trim line \<noteq> ''exit''" using assms(1,2) tokens_exit(1) by auto
  moreover have "trim line \<noteq> ''.exit''" using assms(1,3) tokens_exit(2) by auto
  ultimately show ?thesis using assms(1) by (simp add: handleLine_def)
qed

lemma report_invalid:
  "printCwd (invalidInput s) =
     s\<lparr>out := out s @ [Log ''Invalid input'', Log (cwdLine (cwd s))]\<rparr>"
  by (simp add: printCwd_def invalidInput_def consoleLog_def)

lemma report_failed_after:
  "printCwd (operationFailed (invoke c s)) =
     s\<lparr>out := out s @ [Log ''Operation failed'', Log (cwdLine (cwd s))],
       calls := calls s @ [c]\<rparr>"
  by (simp add: printCwd_def operationFailed_def consoleLog_def invoke_def)

lemma report_invalid_after:
  "printCwd (invalidInput (invoke c s)) =
     s\<lparr>out := out s @ [Log ''Invalid input'', Log (cwdLine (cwd s))],
       calls := calls s @ [c]\<rparr>"
  by (simp add: printCwd_def invalidInput_def consoleLog_def invoke_def)

section \<open>Missing arguments\<close>

text \<open>
  C7. A handler that requires N positional arguments and receives fewer than N tokens
  yields \<open>Invalid input\<close> at once: the line prints \<open>Invalid input\<close> and the
  working-directory line and nothing else; no file-system capability is invoked (the trace
  \<open>calls\<close> is unchanged) and the file-system state \<open>fs\<close> is unchanged. The handlers with
  one argument are \<open>cd\<close>, \<open>cat\<close>, \<open>add\<close>, \<open>mkdir\<close>, \<open>rm\<close>, \<open>hash\<close> and \<open>os\<close>; those
  with two are \<open>rn\<close>, \<open>cp\<close>, \<open>mv\<close>, \<open>compress\<close> and \<open>decompress\<close>.
\<close>

theorem arity_validation_precedes_io:
  assumes toks: "tokens (trim line) = cmd # args"
    and few: "(cmd \<in> {''cd'', ''cat'', ''add'', ''mkdir'', ''rm'', ''hash'', ''os''} \<and> args = []) \<or>
              (cmd \<in> {''rn'', ''cp'', ''mv'', ''compress'', ''decompress''} \<and> length args < 2)"
  shows "handleLine caps line s =
           Returned (s\<lparr>out := out s @ [Log ''Invalid input'', Log (cwdLine (cwd s))]\<rparr>)"
proof -
  have ne: "cmd \<noteq> ''exit''" "cmd \<noteq> ''.exit''" using few by auto
  have r2: "restOfLine 2 (cmd # args) = []"
    if "length args < 2" using that by (cases args) (auto simp: restOfLine_def)
  have "dispatch caps (cmd # args) s = Returned (invalidInput s)"
    using few
  proof (elim disjE conjE)
    assume "cmd \<in> {''cd'', ''cat'', ''add'', ''mkdir'', ''rm'', ''hash'', ''os''}" "args = []"
    then show ?thesis
      by (auto simp: dispatch_def commandName_def restOfLine_def second_def changeDir_def
          catFile_def addFile_def makeDir_def removeFile_def hashFile_def osInfo_def)
  next
    assume "cmd \<in> {''rn'', ''cp'', ''mv'', ''compress'', ''decompress''}" "length args < 2"
    then show ?thesis
      using r2
      by (auto simp: dispatch_def commandName_def renameFile_def copyFile_def moveFile_def
          compressFile_def decompressFile_def transformFile_def)
  qed
  then show ?thesis
    by (simp add: handleLine_dispatch [OF toks ne] report_invalid)
qed

theorem arity_validation_precedes_io_witness:
  "handleLine exampleCaps ''rn a.txt'' exampleSession =
     Returned (exampleSession\<lparr>out := [Log ''Invalid input'',
                                        Log ''You are currently in /home/u'']\<rparr>) \<and>
   handleLine exampleCaps ''  hash   '' exampleSession =
     Returned (exampleSession\<lparr>out := [Log ''Invalid input'',
                                        Log ''You are currently in /home/u'']\<rparr>)"
proof -
  have t1: "tokens (trim ''rn a.txt'') = ''rn'' # [''a.txt'']" by code_simp
  have t2: "tokens (trim ''  hash   '') = ''hash'' # []" by code_simp
  show ?thesis
    using arity_validation_precedes_io [OF t1, of exampleCaps exampleSession]
      arity_validation_precedes_io [OF t2, of exampleCaps exampleSession]
    by (simp add: exampleSession_def cwdLine_def)
qed

section \<open>Who writes the working directory\<close>

lemma cwd_consoleLog [simp]: "cwd (consoleLog l s) = cwd s"
  by (simp add: consoleLog_def)

lemma cwd_invoke [simp]: "cwd (invoke c s) = cwd s"
  by (simp add: invoke_def)

lemma cwd_reports [simp]:
  "cwd (invalidInput s) = cwd s" "cwd (operationFailed s) = cwd s" "cwd (printCwd s) = cwd s"
  by (simp_all add: invalidInput_def operationFailed_def printCwd_def)

lemma cwd_foldl_consoleLog [simp]: "cwd (foldl (\<lambda>t x. consoleLog (f x) t) s xs) = cwd s"
  by (induction xs arbitrary: s) simp_all

lemma cwd_listDir: "cwd (stateOf (listDir caps s)) = cwd s"
  by (simp add: listDir_def Let_def split: option.splits)

lemma cwd_catFile: "cwd (stateOf (catFile caps a s)) = cwd s"
  by (simp add: catFile_def Let_def split: option.splits prod.splits)

lemma cwd_addFile: "cwd (stateOf (addFile caps a s)) = cwd s"
  by (simp add: addFile_def Let_def split: prod.splits)

lemma cwd_makeDir: "cwd (stateOf (makeDir caps a s)) = cwd s"
  by (simp add: makeDir_def Let_def split: prod.splits)

lemma cwd_renameFile: "cwd (stateOf (renameFile caps a b s)) = cwd s"
  by (simp add: renameFile_def Let_def split: prod.splits)

lemma cwd_copyFile: "cwd (stateOf (copyFile caps a b s)) = cwd s"
  by (simp add: copyFile_def Let_def split: option.splits prod.splits)

lemma cwd_moveFile: "cwd (stateOf (moveFile caps a b s)) = cwd s"
  by (simp add: moveFile_def Let_def split: option.splits prod.splits)

lemma cwd_removeFile: "cwd (stateOf (removeFile caps a s)) = cwd s"
  by (simp add: removeFile_def Let_def split: option.splits prod.splits)

lemma cwd_hashFile: "cwd (stateOf (hashFile caps a s)) = cwd s"
  by (simp add: hashFile_def Let_def split: option.splits prod.splits)

lemma cwd_transformFile: "cwd (stateOf (transformFile p c caps a b s)) = cwd s"
  by (simp add: transformFile_def Let_def split: option.splits prod.splits pipeResult.splits)

lemma cwd_osInfo: "cwd (osInfo caps a s) = cwd s"
  by (simp add: osInfo_def split: option.splits)

lemma cwd_changeDir_no_directory:
  "stat caps (fs s) (safeResolve (cwd s) a) \<noteq> Some Directory \<Longrightarrow>
   cwd (stateOf (changeDir caps a s)) = cwd s"
  by (simp add: changeDir_def Let_def split: option.splits)

lemma cwd_dispatch_other:
  "commandName parts \<noteq> Some ''up'' \<Longrightarrow> commandName parts \<noteq> Some ''cd'' \<Longrightarrow>
   cwd (stateOf (dispatch caps parts s)) = cwd s"
  by (simp add: dispatch_def Let_def cwd_listDir cwd_catFile cwd_addFile cwd_makeDir
      cwd_renameFile cwd_copyFile cwd_moveFile cwd_removeFile cwd_hashFile cwd_transformFile
      cwd_osInfo compressFile_def decompressFile_def)

lemma cwd_handleLine_dispatch:
  "cwd (stateOf (dispatch caps (tokens (trim line)) s)) = cwd s \<Longrightarrow>
   cwd (stateOf (handleLine caps line s)) = cwd s"
  by (cases "dispatch caps (tokens (trim line)) s")
     (simp_all add: handleLine_def exitAndCleanup_def Let_def)

text \<open>
  C4. The working directory is written by \<open>up\<close> and \<open>cd\<close> only: a line whose command
  name is neither of them (any other command, an unrecognized one, an empty line, an exit
  keyword) leaves \<open>cwd\<close> as it was, however the handler ends; and \<open>cd\<close> leaves \<open>cwd\<close>
  as it was whenever its resolved target is missing or is not a directory.
\<close>

theorem cwd_written_by_up_and_cd_only:
  "(commandName (tokens (trim line)) \<notin> {Some ''up'', Some ''cd''} \<longrightarrow>
      cwd (stateOf (handleLine caps line s)) = cwd s) \<and>
   (commandName (tokens (trim line)) = Some ''cd'' \<and>
    stat caps (fs s) (safeResolve (cwd s) (restOfLine 1 (tokens (trim line)))) \<noteq> Some Directory \<longrightarrow>
      cwd (stateOf (handleLine caps line s)) = cwd s)"
proof (intro conjI impI)
  assume "commandName (tokens (trim line)) \<notin> {Some ''up'', Some ''cd''}"
  then show "cwd (stateOf (handleLine caps line s)) = cwd s"
    by (intro cwd_handleLine_dispatch cwd_dispatch_other) simp_all
next
  assume a: "commandName (tokens (trim line)) = Some ''cd'' \<and>
    stat caps (fs s) (safeResolve (cwd s) (restOfLine 1 (tokens (trim line)))) \<noteq> Some Directory"
  then have "dispatch caps (tokens (trim line)) s =
      changeDir caps (restOfLine 1 (tokens (trim line))) s"
    by (simp add: dispatch_def)
  with a show "cwd (stateOf (handleLine caps line s)) = cwd s"
    by (intro cwd_handleLine_dispatch) (simp add: cwd_changeDir_no_directory)
qed

theorem cwd_written_by_up_and_cd_only_witness:
  "cwd (stateOf (handleLine exampleCaps ''mv a.txt sub'' exampleSession)) = ''/home/u'' \<and>
   cwd (stateOf (handleLine exampleCaps ''cd a.txt'' exampleSession)) = ''/home/u''"
proof -
  have c1: "commandName (tokens (trim ''mv a.txt sub'')) \<notin> {Some ''up'', Some ''cd''}"
    by code_simp
  have c2: "commandName (tokens (trim ''cd a.txt'')) = Some ''cd'' \<and>
      stat exampleCaps (fs exampleSession)
        (safeResolve (cwd exampleSession) (restOfLine 1 (tokens (trim ''cd a.txt''))))
        \<noteq> Some Directory"
    by code_simp
  have c: "cwd exampleSession = ''/home/u''" by (simp add: exampleSession_def)
  show ?thesis
    using cwd_written_by_up_and_cd_only [of "''mv a.txt sub''" exampleCaps exampleSession]
      cwd_written_by_up_and_cd_only [of "''cd a.txt''" exampleCaps exampleSession] c1 c2 c
    by simp
qed

section \<open>What a missing target prints\<close>

text \<open>
  C2, as the program behaves. For \<open>cd\<close>, \<open>cat\<close>, \<open>rm\<close> and \<open>hash\<close> with an argument,
  the handler asks \<open>stat\<close> for the resolved target. When \<open>stat\<close> rejects, as it does for
  a missing entry, the line prints \<open>Operation failed\<close> and then the working-directory
  line; \<open>Invalid input\<close> is what it prints when the entry exists but is of the wrong kind
  (not a directory for \<open>cd\<close>, not a regular file for the others). In both cases \<open>stat\<close> is
  the only capability invoked.
\<close>

theorem missing_target_operation_failed:
  assumes toks: "tokens (trim line) = cmd # args"
    and cmd: "cmd \<in> {''cd'', ''cat'', ''rm'', ''hash''}"
    and args: "args \<noteq> []"
    and target: "target = safeResolve (cwd s) (joinWith '' '' args)"
  shows "(stat caps (fs s) target = None \<longrightarrow>
            handleLine caps line s =
              Returned (s\<lparr>out := out s @ [Log ''Operation failed'', Log (cwdLine (cwd s))],
                          calls := calls s @ [Stat target]\<rparr>)) \<and>
         (\<forall>k. stat caps (fs s) target = Some k \<and>
              k \<noteq> (if cmd = ''cd'' then Directory else RegularFile) \<longrightarrow>
            handleLine caps line s =
              Returned (s\<lparr>out := out s @ [Log ''Invalid input'', Log (cwdLine (cwd s))],
                          calls := calls s @ [Stat target]\<rparr>))"
proof -
  obtain a as where as: "args = a # as" using args by (cases args) auto
  have ne: "cmd \<noteq> ''exit''" "cmd \<noteq> ''.exit''" using cmd by auto
  have rest: "restOfLine 1 (cmd # args) = joinWith '' '' args"
    by (simp add: restOfLine_def)
  have nonempty: "joinWith '' '' args \<noteq> []"
    using restOfLine_tokens [of "trim line" cmd a as] toks as rest by simp
  have d: "dispatch caps (cmd # args) s =
             (if cmd = ''cd'' then changeDir caps (joinWith '' '' args) s
              else if cmd = ''cat'' then catFile caps (joinWith '' '' args) s
              else if cmd = ''rm'' then removeFile caps (joinWith '' '' args) s
              else hashFile caps (joinWith '' '' args) s)"
    using cmd rest by (auto simp: dispatch_def commandName_def)
  show ?thesis
    unfolding handleLine_dispatch [OF toks ne] d
    using cmd nonempty target
    by (auto simp: changeDir_def catFile_def removeFile_def hashFile_def Let_def
        report_failed_after report_invalid_after)
qed

theorem missing_target_operation_failed_witness:
  "handleLine exampleCaps ''hash nowhere.bin'' exampleSession =
     Returned (exampleSession\<lparr>out := [Log ''Operation failed'',
                                        Log ''You are currently in /home/u''],
                                calls := [Stat ''/home/u/nowhere.bin'']\<rparr>) \<and>
   handleLine exampleCaps ''hash sub'' exampleSession =
     Returned (exampleSession\<lparr>out := [Log ''Invalid input'',
                                        Log ''You are currently in /home/u''],
                                calls := [Stat ''/home/u/sub'']\<rparr>)"
proof -
  have t1: "tokens (trim ''hash nowhere.bin'') = ''hash'' # [''nowhere.bin'']" by code_simp
  have t2: "tokens (trim ''hash sub'') = ''hash'' # [''sub'']" by code_simp
  have c: "''hash'' \<in> {''cd'', ''cat'', ''rm'', ''hash''}" by simp
  have p1: "''/home/u/nowhere.bin'' =
      safeResolve (cwd exampleSession) (joinWith '' '' [''nowhere.bin''])" by code_simp
  have p2: "''/home/u/sub'' = safeResolve (cwd exampleSession) (joinWith '' '' [''sub''])"
    by code_simp
  have s1: "stat exampleCaps (fs exampleSession) ''/home/u/nowhere.bin'' = None"
    by code_simp
  have s2: "stat exampleCaps (fs exampleSession) ''/home/u/sub'' = Some Directory"
    by code_simp
  show ?thesis
    using missing_target_operation_failed [OF t1 c _ p1, of exampleCaps]
      missing_target_operation_failed [OF t2 c _ p2, of exampleCaps] s1 s2
    by (simp add: exampleSession_def cwdLine_def)
qed

text \<open>
  C2, as the claim states it, fails: in the example session \<open>nonexistent.txt\<close> resolves
  to a path that \<open>stat\<close> does not find, and \<open>rm nonexistent.txt\<close> prints
  \<open>Operation failed\<close>, then the working-directory line.
\<close>

theorem rm_nonexistent_prints_operation_failed:
  "stat exampleCaps (fs exampleSession)
     (safeResolve (cwd exampleSession) ''nonexistent.txt'') = None \<and>
   handleLine exampleCaps ''rm nonexistent.txt'' exampleSession =
     Returned (exampleSession\<lparr>out := [Log ''Operation failed'',
                                        Log ''You are currently in /home/u''],
                                calls := [Stat ''/home/u/nonexistent.txt'']\<rparr>)"
  by code_simp

section \<open>A read error in \<open>cat\<close>\<close>

text \<open>
  A handler's promise stays unsettled in \<open>cat\<close> only, and a line whose handler returns
  ends with the working-directory line, printed by \<open>handleLine\<close> itself.
\<close>

lemma listDir_returns: "\<exists>t. listDir caps s = Returned t"
  by (simp add: listDir_def Let_def split: option.splits)

lemma dispatch_pending_only_cat:
  assumes "dispatch caps parts s = Pending t"
  shows "commandName parts = Some ''cat''"
proof (rule ccontr)
  assume n: "commandName parts \<noteq> Some ''cat''"
  have "\<And>a. goUp s \<noteq> Pending t" by (simp add: goUp_def Let_def)
  moreover have "\<And>a. changeDir caps a s \<noteq> Pending t"
    by (simp add: changeDir_def Let_def split: option.splits)
  moreover have "listDir caps s \<noteq> Pending t" using listDir_returns [of caps s] by auto
  moreover have "\<And>a. addFile caps a s \<noteq> Pending t"
    by (simp add: addFile_def Let_def split: prod.splits)
  moreover have "\<And>a. makeDir caps a s \<noteq> Pending t"
    by (simp add: makeDir_def Let_def split: prod.splits)
  moreover have "\<And>a b. renameFile caps a b s \<noteq> Pending t"
    by (simp add: renameFile_def Let_def split: prod.splits)
  moreover have "\<And>a b. copyFile caps a b s \<noteq> Pending t"
    by (simp add: copyFile_def Let_def split: option.splits prod.splits)
  moreover have "\<And>a b. moveFile caps a b s \<noteq> Pending t"
    by (simp add: moveFile_def Let_def split: option.splits prod.splits)
  moreover have "\<And>a. removeFile caps a s \<noteq> Pending t"
    by (simp add: removeFile_def Let_def split: option.splits prod.splits)
  moreover have "\<And>a. hashFile caps a s \<noteq> Pending t"
    by (simp add: hashFile_def Let_def split: option.splits prod.splits)
  moreover have "\<And>p c a b. transformFile p c caps a b s \<noteq> Pending t"
    by (simp add: transformFile_def Let_def split: option.splits prod.splits pipeResult.splits)
  ultimately show False
    using assms n
    by (simp add: dispatch_def Let_def compressFile_def decompressFile_def split: if_splits)
qed

lemma handleLine_returned:
  assumes "handleLine caps line s = Returned t" and "trim line \<noteq> []"
  shows "\<exists>t'. dispatch caps (tokens (trim line)) s = Returned t' \<and>
              t = t'\<lparr>out := out t' @ [Log (cwdLine (cwd t'))]\<rparr>"
  using assms
  by (cases "dispatch caps (tokens (trim line)) s")
     (auto simp: handleLine_def exitAndCleanup_def Let_def printCwd_def consoleLog_def
       split: if_splits)

text \<open>
  C3 at a failing input. \<open>locked.txt\<close> is a regular file whose read stream fails. The
  line \<open>cat locked.txt\<close> is dispatched and prints \<open>Operation failed\<close>, but the handler's
  promise is never fulfilled, so the \<open>finally\<close> block of \<open>handleLine\<close> is not reached:
  the working-directory line is not printed.
\<close>

theorem cat_read_error_prints_no_cwd_line:
  "handleLine exampleCaps ''cat locked.txt'' exampleSession =
     Pending (exampleSession\<lparr>out := [Piped [], Log ''Operation failed''],
                               calls := [Stat ''/home/u/locked.txt'',
                                         ReadStream ''/home/u/locked.txt'']\<rparr>)"
  by code_simp

section \<open>Splitting and joining\<close>

lemma split_no_separator: "c \<notin> set s \<Longrightarrow> split c s = [s]"
  by (induction s) auto

lemma split_append: "split c (a @ c # b) = split c a @ split c b"
proof (induction a)
  case Nil
  show ?case by simp
next
  case (Cons x a)
  obtain piece pieces where sp: "split c a = piece # pieces"
    using split_nonempty [of c a] by (cases "split c a") auto
  show ?case using Cons sp by simp
qed

lemma split_pieces_no_separator: "s \<in> set (split c p) \<Longrightarrow> c \<notin> set s"
proof (induction p arbitrary: s)
  case Nil
  then show ?case by simp
next
  case (Cons x p)
  obtain piece pieces where sp: "split c p = piece # pieces"
    using split_nonempty [of c p] by (cases "split c p") auto
  show ?case
  proof (cases "x = c")
    case True
    with Cons show ?thesis by auto
  next
    case False
    with Cons.prems sp have "s = x # piece \<or> s \<in> set pieces" by simp
    then show ?thesis using Cons.IH sp False by auto
  qed
qed

lemma joinWith_snoc: "xs \<noteq> [] \<Longrightarrow> joinWith sep (xs @ [x]) = joinWith sep xs @ sep @ x"
  by (induction sep xs rule: joinWith.induct) simp_all

lemma joinWith_Cons: "xs \<noteq> [] \<Longrightarrow> joinWith sep (x # xs) = x @ sep @ joinWith sep xs"
  by (cases xs) simp_all

lemma split_joinWith:
  "xs \<noteq> [] \<Longrightarrow> \<forall>s \<in> set xs. c \<notin> set s \<Longrightarrow> split c (joinWith [c] xs) = xs"
proof (induction xs)
  case Nil
  then show ?case by simp
next
  case (Cons x xs)
  show ?case
  proof (cases "xs = []")
    case True
    with Cons.prems show ?thesis by (simp add: split_no_separator)
  next
    case False
    then have "joinWith [c] (x # xs) = x @ c # joinWith [c] xs"
      by (simp add: joinWith_Cons)
    with Cons False show ?thesis by (simp add: split_append split_no_separator)
  qed
qed

section \<open>Normalizing absolute paths\<close>

lemma properName_no_separator: "properName s \<Longrightarrow> CHR ''/'' \<notin> set s"
  by (simp add: properName_def)

lemma normalizeStep_proper: "properName seg \<Longrightarrow> normalizeStep a res seg = seg # res"
  by (simp add: normalizeStep_def properName_def)

lemma normalizeStep_empty [simp]: "normalizeStep a res [] = res"
  by (simp add: normalizeStep_def)

lemma foldl_normalizeStep_proper:
  "list_all properName xs \<Longrightarrow> foldl (normalizeStep a) res xs = rev xs @ res"
  by (induction xs arbitrary: res) (simp_all add: normalizeStep_proper)

lemma normalizeStep_keeps_proper:
  assumes "list_all properName res" and "CHR ''/'' \<notin> set seg"
  shows "list_all properName (normalizeStep False res seg)"
  using assms by (cases res) (auto simp: normalizeStep_def properName_def)

lemma foldl_normalizeStep_keeps_proper:
  "list_all properName res \<Longrightarrow> \<forall>s \<in> set xs. CHR ''/'' \<notin> set s \<Longrightarrow>
   list_all properName (foldl (normalizeStep False) res xs)"
  by (induction xs arbitrary: res) (simp_all add: normalizeStep_keeps_proper)

lemma joinWith_proper_nonempty:
  "list_all properName xs \<Longrightarrow> xs \<noteq> [] \<Longrightarrow> joinWith sep xs \<noteq> []"
  by (cases xs) (auto simp: joinWith_nonempty properName_def)

lemma joinWith_empty_iff:
  "list_all properName xs \<Longrightarrow> joinWith sep xs = [] \<longleftrightarrow> xs = []"
  using joinWith_proper_nonempty by auto

lemma normalizePath_absolute_stack:
  assumes "isAbsolute p"
  shows "list_all properName (foldl (normalizeStep False) [] (split CHR ''/'' p)) \<and>
         normalizePath p =
           absPath (rev (foldl (normalizeStep False) [] (split CHR ''/'' p))) (last p = CHR ''/'')"
proof -
  let ?st = "foldl (normalizeStep False) [] (split CHR ''/'' p)"
  have proper: "list_all properName ?st"
    using foldl_normalizeStep_keeps_proper [of "[]" "split CHR ''/'' p"]
      split_pieces_no_separator [of _ "CHR ''/''" p] by simp
  then have proper': "list_all properName (rev ?st)" by simp
  have ne: "p \<noteq> []" and hd: "hd p = CHR ''/''" using assms by (auto simp: isAbsolute_def)
  have q: "normalizeString p False = joinWith ''/'' (rev ?st)"
    by (simp add: normalizeString_def)
  have "normalizePath p = absPath (rev ?st) (last p = CHR ''/'')"
    using ne hd q joinWith_empty_iff [OF proper', of "''/''"]
    by (auto simp: normalizePath_def absPath_def Let_def)
  with proper show ?thesis by blast
qed

lemma normalizePath_absolute:
  assumes "isAbsolute p"
  shows "\<exists>names tr. list_all properName names \<and> normalizePath p = absPath names tr"
proof -
  let ?st = "foldl (normalizeStep False) [] (split CHR ''/'' p)"
  have "list_all properName (rev ?st)"
    using normalizePath_absolute_stack [OF assms] by simp
  then show ?thesis
    using normalizePath_absolute_stack [OF assms] by blast
qed

lemma absPath_isAbsolute [simp]: "isAbsolute (absPath names t)"
  by (simp add: absPath_def isAbsolute_def)

lemma isAbsolute_normalizePath: "isAbsolute p \<Longrightarrow> isAbsolute (normalizePath p)"
  using normalizePath_absolute [of p] by auto

lemma last_joinWith_proper:
  "list_all properName xs \<Longrightarrow> xs \<noteq> [] \<Longrightarrow> last (joinWith ''/'' xs) \<noteq> CHR ''/''"
proof (induction xs rule: rev_induct)
  case Nil
  then show ?case by simp
next
  case (snoc x xs)
  then have x: "x \<noteq> []" "CHR ''/'' \<notin> set x" by (auto simp: properName_def)
  then have "last x \<noteq> CHR ''/''" using last_in_set by metis
  then show ?case using x by (cases "xs = []") (simp_all add: joinWith_snoc)
qed

lemma normalizePath_absPath:
  assumes "list_all properName names"
  shows "normalizePath (absPath names t) = absPath names t"
proof (cases "names = []")
  case True
  then show ?thesis
    by (simp add: absPath_def normalizePath_def normalizeString_def)
next
  case False
  let ?j = "joinWith ''/'' names"
  have nosep: "\<forall>s \<in> set names. CHR ''/'' \<notin> set s"
    using assms by (auto simp: list_all_iff properName_def)
  have sj: "split CHR ''/'' ?j = names"
    using split_joinWith [OF False nosep] by simp
  have jne: "?j \<noteq> []" using assms False by (rule joinWith_proper_nonempty)
  have lastj: "last ?j \<noteq> CHR ''/''" using assms False by (rule last_joinWith_proper)
  show ?thesis
  proof (cases t)
    case True
    have "split CHR ''/'' (absPath names t) = [] # names @ [[]]"
      using True False sj split_append [of "CHR ''/''" ?j "[]"] by (simp add: absPath_def)
    then have "foldl (normalizeStep False) [] (split CHR ''/'' (absPath names t)) = rev names"
      using assms by (simp add: foldl_normalizeStep_proper)
    then show ?thesis
      using True False jne by (simp add: normalizePath_def normalizeString_def absPath_def)
  next
    case notr: False
    have "split CHR ''/'' (absPath names t) = [] # names"
      using notr sj by (simp add: absPath_def)
    then have "foldl (normalizeStep False) [] (split CHR ''/'' (absPath names t)) = rev names"
      using assms by (simp add: foldl_normalizeStep_proper)
    then show ?thesis
      using notr False jne lastj by (simp add: normalizePath_def normalizeString_def absPath_def)
  qed
qed

lemma normalizePath_idempotent:
  "isAbsolute p \<Longrightarrow> normalizePath (normalizePath p) = normalizePath p"
  using normalizePath_absolute [of p] normalizePath_absPath by auto

section \<open>The resolver on an absolute working directory\<close>

lemma isAbsolute_startsWith_root: "isAbsolute p \<Longrightarrow> startsWith p ''/''"
  by (cases p) (simp_all add: isAbsolute_def startsWith_def)

lemma joinWith_two: "a \<noteq> [] \<Longrightarrow> b \<noteq> [] \<Longrightarrow>
    joinWith ''/'' (filter (\<lambda>x. x \<noteq> []) [a, b]) = a @ CHR ''/'' # b"
  by simp

lemma join_absolute:
  assumes "isAbsolute c"
  shows "isAbsolute (join [c, t])"
proof -
  let ?joined = "joinWith ''/'' (filter (\<lambda>x. x \<noteq> []) [c, t])"
  have c: "c \<noteq> []" using assms by (simp add: isAbsolute_def)
  have "isAbsolute ?joined"
    using assms by (cases c) (auto simp: isAbsolute_def)
  moreover have "join [c, t] = normalizePath ?joined"
    using c by (simp add: join_def)
  ultimately show ?thesis by (simp add: isAbsolute_normalizePath)
qed

lemma safeResolve_absolute:
  assumes "isAbsolute c"
  shows "safeResolve c t =
           (if isAbsolute t then normalizePath t else normalizePath (join [c, t]))"
proof -
  have "isAbsolute (if isAbsolute t then normalizePath t else normalizePath (join [c, t]))"
    using assms by (simp add: isAbsolute_normalizePath join_absolute)
  then show ?thesis
    using assms by (simp add: safeResolve_unfold rootOf_def Let_def isAbsolute_startsWith_root)
qed

lemma safeResolve_shape:
  assumes "isAbsolute c"
  shows "\<exists>names tr. list_all properName names \<and> safeResolve c t = absPath names tr"
proof (cases "isAbsolute t")
  case True
  then show ?thesis
    using normalizePath_absolute [of t] safeResolve_absolute [OF assms, of t] by auto
next
  case False
  then show ?thesis
    using normalizePath_absolute [OF join_absolute [OF assms, of t]]
      safeResolve_absolute [OF assms, of t] by auto
qed

lemma rootOrDescendant_absPath:
  assumes "list_all properName names"
  shows "rootOrDescendant ''/'' (absPath names tr)"
proof -
  have nosep: "\<forall>s \<in> set names. CHR ''/'' \<notin> set s"
    using assms by (auto simp: list_all_iff properName_def)
  have keep: "filter (\<lambda>seg. seg \<noteq> []) names = names"
    using assms by (auto simp: list_all_iff properName_def filter_id_conv)
  have "filter (\<lambda>seg. seg \<noteq> [])
          (split CHR ''/'' (joinWith ''/'' names @ (if tr \<and> names \<noteq> [] then ''/'' else [])))
        = names"
  proof (cases "names = []")
    case True
    then show ?thesis by simp
  next
    case False
    have sj: "split CHR ''/'' (joinWith ''/'' names) = names"
      using split_joinWith [OF False nosep] by simp
    show ?thesis
      using False sj keep split_append [of "CHR ''/''" "joinWith ''/'' names" "[]"]
      by (cases tr) simp_all
  qed
  then show ?thesis
    using assms by (simp add: rootOrDescendant_def absPath_def startsWith_def)
qed

lemma startsWith_self [simp]: "startsWith p p"
  by (simp add: startsWith_def)

text \<open>
  C5. On every host, that is for every \<open>path\<close> module, every \<open>rawArg\<close> and every
  \<open>cwd\<close>: the candidate is the normalized \<open>rawArg\<close> when \<open>rawArg\<close> is absolute and the
  normalized join of \<open>cwd\<close> and \<open>rawArg\<close> otherwise; \<open>safeResolve\<close> returns the root of
  \<open>cwd\<close> whenever the candidate does not start with that root and the candidate
  otherwise, so what it returns always starts with the root of \<open>cwd\<close>. It is a total
  function with no error outcome. On a POSIX host with an absolute \<open>cwd\<close> the candidate
  always starts with the root, so the result is the candidate, and it is the root or a
  descendant of it.
\<close>

theorem path_resolver_contract:
  "(\<not> startsWith (if pathIsAbsolute pm rawArg then pathNormalize pm rawArg
                    else pathNormalize pm (pathJoin pm [dir, rawArg])) (pathRoot pm dir) \<longrightarrow>
      safeResolveOn pm dir rawArg = pathRoot pm dir) \<and>
   (startsWith (if pathIsAbsolute pm rawArg then pathNormalize pm rawArg
                else pathNormalize pm (pathJoin pm [dir, rawArg])) (pathRoot pm dir) \<longrightarrow>
      (pathIsAbsolute pm rawArg \<longrightarrow> safeResolveOn pm dir rawArg = pathNormalize pm rawArg) \<and>
      (\<not> pathIsAbsolute pm rawArg \<longrightarrow>
         safeResolveOn pm dir rawArg = pathNormalize pm (pathJoin pm [dir, rawArg]))) \<and>
   startsWith (safeResolveOn pm dir rawArg) (pathRoot pm dir) \<and>
   (isAbsolute dir \<longrightarrow>
      (isAbsolute rawArg \<longrightarrow> safeResolve dir rawArg = normalizePath rawArg) \<and>
      (\<not> isAbsolute rawArg \<longrightarrow> safeResolve dir rawArg = normalizePath (join [dir, rawArg])) \<and>
      rootOrDescendant (rootOf dir) (safeResolve dir rawArg))"
proof -
  have posix: "(isAbsolute rawArg \<longrightarrow> safeResolve dir rawArg = normalizePath rawArg) \<and>
      (\<not> isAbsolute rawArg \<longrightarrow> safeResolve dir rawArg = normalizePath (join [dir, rawArg])) \<and>
      rootOrDescendant (rootOf dir) (safeResolve dir rawArg)" if abs: "isAbsolute dir"
  proof -
    obtain names tr where "list_all properName names" "safeResolve dir rawArg = absPath names tr"
      using safeResolve_shape [OF abs] by blast
    then have "rootOrDescendant (rootOf dir) (safeResolve dir rawArg)"
      using abs by (simp add: rootOf_def rootOrDescendant_absPath)
    then show ?thesis using safeResolve_absolute [OF abs, of rawArg] by simp
  qed
  have general: "(\<not> startsWith (if pathIsAbsolute pm rawArg then pathNormalize pm rawArg
                    else pathNormalize pm (pathJoin pm [dir, rawArg])) (pathRoot pm dir) \<longrightarrow>
      safeResolveOn pm dir rawArg = pathRoot pm dir) \<and>
   (startsWith (if pathIsAbsolute pm rawArg then pathNormalize pm rawArg
                else pathNormalize pm (pathJoin pm [dir, rawArg])) (pathRoot pm dir) \<longrightarrow>
      (pathIsAbsolute pm rawArg \<longrightarrow> safeResolveOn pm dir rawArg = pathNormalize pm rawArg) \<and>
      (\<not> pathIsAbsolute pm rawArg \<longrightarrow>
         safeResolveOn pm dir rawArg = pathNormalize pm (pathJoin pm [dir, rawArg]))) \<and>
   startsWith (safeResolveOn pm dir rawArg) (pathRoot pm dir)"
    by (simp add: safeResolveOn_def Let_def)
  show ?thesis using general posix by blast
qed

theorem path_resolver_contract_witness:
  "safeResolveOn drivePath (''C:'' @ [backslash] @ ''Users'' @ [backslash] @ ''u'')
     (''D:'' @ [backslash] @ ''data'') = ''C:'' @ [backslash] \<and>
   safeResolveOn drivePath (''C:'' @ [backslash] @ ''Users'' @ [backslash] @ ''u'')
     (''..'' @ [backslash] @ ''v'') =
       pathNormalize drivePath
         (pathJoin drivePath [''C:'' @ [backslash] @ ''Users'' @ [backslash] @ ''u'',
                              ''..'' @ [backslash] @ ''v'']) \<and>
   safeResolve ''/home/u'' ''/etc/../tmp/'' = normalizePath ''/etc/../tmp/'' \<and>
   safeResolve ''/home/u'' ''../x'' = normalizePath (join [''/home/u'', ''../x'']) \<and>
   rootOrDescendant ''/'' (safeResolve ''/home/u'' ''../../../..'')"
proof -
  let ?c = "''C:'' @ [backslash] @ ''Users'' @ [backslash] @ ''u''"
  let ?d = "''D:'' @ [backslash] @ ''data''"
  let ?r = "''..'' @ [backslash] @ ''v''"
  have out: "\<not> startsWith (if pathIsAbsolute drivePath ?d then pathNormalize drivePath ?d
                    else pathNormalize drivePath (pathJoin drivePath [?c, ?d])) (pathRoot drivePath ?c)"
    by code_simp
  have root: "pathRoot drivePath ?c = ''C:'' @ [backslash]" by code_simp
  have inside: "startsWith (if pathIsAbsolute drivePath ?r then pathNormalize drivePath ?r
                    else pathNormalize drivePath (pathJoin drivePath [?c, ?r])) (pathRoot drivePath ?c)"
    by code_simp
  have rel: "\<not> pathIsAbsolute drivePath ?r" by code_simp
  have h: "isAbsolute ''/home/u''" by (simp add: isAbsolute_def)
  have a1: "isAbsolute ''/etc/../tmp/''" by (simp add: isAbsolute_def)
  have a2: "\<not> isAbsolute ''../x''" by (simp add: isAbsolute_def)
  have r: "rootOf ''/home/u'' = ''/''" by (simp add: rootOf_def isAbsolute_def)
  have c0: "safeResolveOn drivePath ?c ?d = ''C:'' @ [backslash]"
    using path_resolver_contract [of drivePath ?d ?c] out unfolding root by blast
  have c0': "safeResolveOn drivePath ?c ?r = pathNormalize drivePath (pathJoin drivePath [?c, ?r])"
    using path_resolver_contract [of drivePath ?r ?c] inside rel by blast
  have c1: "safeResolve ''/home/u'' ''/etc/../tmp/'' = normalizePath ''/etc/../tmp/''"
    using path_resolver_contract [of posixPath "''/etc/../tmp/''" "''/home/u''"] h a1 by blast
  have c2: "safeResolve ''/home/u'' ''../x'' = normalizePath (join [''/home/u'', ''../x''])"
    using path_resolver_contract [of posixPath "''../x''" "''/home/u''"] h a2 by blast
  have c3: "rootOrDescendant ''/'' (safeResolve ''/home/u'' ''../../../..'')"
    using path_resolver_contract [of posixPath "''../../../..''" "''/home/u''"] h unfolding r by blast
  show ?thesis using c0 c0' c1 c2 c3 by blast
qed

text \<open>
  C6. For an absolute working directory, resolving a path that has already been resolved
  against it gives the same path again.
\<close>

theorem resolution_idempotent:
  assumes "isAbsolute dir"
  shows "safeResolve dir (safeResolve dir p) = safeResolve dir p"
proof -
  obtain names tr where sh: "list_all properName names" "safeResolve dir p = absPath names tr"
    using safeResolve_shape [OF assms] by blast
  then have "safeResolve dir (absPath names tr) = absPath names tr"
    using safeResolve_absolute [OF assms, of "absPath names tr"]
    by (simp add: normalizePath_absPath)
  with sh show ?thesis by simp
qed

theorem resolution_idempotent_witness:
  "safeResolve ''/home/u'' (safeResolve ''/home/u'' ''sub/../a.txt'') =
     safeResolve ''/home/u'' ''sub/../a.txt''"
proof -
  have h: "isAbsolute ''/home/u''" by (simp add: isAbsolute_def)
  show ?thesis using resolution_idempotent [OF h] by simp
qed

section \<open>The parent directory\<close>

lemma double_dropWhile_suffix:
  "\<exists>pre. xs = pre @ dropWhile Q (dropWhile P xs)"
  by (rule exI [of _ "takeWhile P xs @ takeWhile Q (dropWhile P xs)"]) simp

text \<open>Where \<open>dirname\<close> cuts, the path has a separator.\<close>

lemma dirnameEnd_cut:
  assumes "dirnameEnd (x # rest) = Some e"
  shows "\<exists>tail. x # rest = take e (x # rest) @ CHR ''/'' # tail \<and> 0 < e"
proof -
  define u where
    "u = dropWhile (\<lambda>c. c \<noteq> CHR ''/'') (dropWhile (\<lambda>c. c = CHR ''/'') (rev rest))"
  have "dirnameEnd (x # rest) = (if u = [] then None else Some (length u))"
    unfolding dirnameEnd_def Let_def u_def list.sel by (rule refl)
  with assms have u: "u \<noteq> []" and e: "e = length u"
    by (simp_all split: if_splits)
  have "\<not> (hd u \<noteq> CHR ''/'')"
    unfolding u_def using u [unfolded u_def] by (rule hd_dropWhile)
  then obtain u' where u': "u = CHR ''/'' # u'" using u by (cases u) auto
  obtain pre where "rev rest = pre @ u"
    unfolding u_def using double_dropWhile_suffix by blast
  then have "rev (rev rest) = rev (pre @ CHR ''/'' # u')" using u' by simp
  then have "rest = rev u' @ CHR ''/'' # rev pre" by simp
  moreover have "e = Suc (length u')" using e u' by simp
  ultimately show ?thesis by simp
qed

lemma rootOrDescendant_root [simp]: "rootOrDescendant ''/'' ''/''" "rootOrDescendant ''/'' ''//''"
  by (simp_all add: rootOrDescendant_def startsWith_def)

lemma dirname_keeps_below_root:
  assumes abs: "isAbsolute p" and below: "rootOrDescendant ''/'' p"
  shows "isAbsolute (dirname p) \<and> rootOrDescendant ''/'' (dirname p)"
proof -
  obtain rest where p: "p = CHR ''/'' # rest"
    using abs by (cases p) (auto simp: isAbsolute_def)
  show ?thesis
  proof (cases "dirnameEnd p")
    case None
    then show ?thesis using p by (simp add: dirname_def isAbsolute_def)
  next
    case (Some e)
    show ?thesis
    proof (cases "e = 1")
      case True
      then show ?thesis using p Some by (simp add: dirname_def isAbsolute_def)
    next
      case False
      obtain tail where cut: "p = take e p @ CHR ''/'' # tail" and e: "0 < e"
        using dirnameEnd_cut Some p by blast
      obtain e' where e': "e = Suc e'" using e by (cases e) auto
      have d: "dirname p = take e p" using p Some False by (simp add: dirname_def)
      have tk: "take e p = CHR ''/'' # take e' rest" using p e' by simp
      then have rest: "rest = take e' rest @ CHR ''/'' # tail" using cut p by simp
      have "split CHR ''/'' rest = split CHR ''/'' (take e' rest) @ split CHR ''/'' tail"
        using rest split_append [of "CHR ''/''" "take e' rest" tail] by simp
      moreover have "list_all properName (filter (\<lambda>seg. seg \<noteq> []) (split CHR ''/'' rest))"
        using below p by (simp add: rootOrDescendant_def)
      ultimately have
        "list_all properName (filter (\<lambda>seg. seg \<noteq> []) (split CHR ''/'' (take e' rest)))"
        by simp
      then show ?thesis
        using d tk by (simp add: rootOrDescendant_def startsWith_def isAbsolute_def)
    qed
  qed
qed

section \<open>Confinement\<close>

lemma safeResolve_below_root:
  assumes "isAbsolute c"
  shows "isAbsolute (safeResolve c t) \<and> rootOrDescendant ''/'' (safeResolve c t)"
proof -
  obtain names tr where "list_all properName names" "safeResolve c t = absPath names tr"
    using safeResolve_shape [OF assms] by blast
  then show ?thesis by (simp add: rootOrDescendant_absPath)
qed

lemma goUp_cases: "cwd (stateOf (goUp s)) = cwd s \<or> cwd (stateOf (goUp s)) = dirname (cwd s)"
  by (simp add: goUp_def Let_def)

lemma changeDir_cases:
  "cwd (stateOf (changeDir caps a s)) = cwd s \<or>
   cwd (stateOf (changeDir caps a s)) = safeResolve (cwd s) a"
  by (simp add: changeDir_def Let_def split: option.splits)

lemma goUp_confined: "confined s \<Longrightarrow> confined (stateOf (goUp s))"
  using goUp_cases [of s] dirname_keeps_below_root [of "cwd s"]
  by (auto simp: confined_def)

lemma changeDir_confined: "confined s \<Longrightarrow> confined (stateOf (changeDir caps a s))"
  using changeDir_cases [of caps a s] safeResolve_below_root [of "cwd s" a]
  by (auto simp: confined_def)

lemma navigate_confined: "confined s \<Longrightarrow> confined (navigate caps ops s)"
proof (induction ops arbitrary: s)
  case Nil
  then show ?case by simp
next
  case (Cons op ops)
  then show ?case by (cases op) (simp_all add: goUp_confined changeDir_confined)
qed

text \<open>Every input line, whatever its command, keeps the working directory confined.\<close>

lemma confined_cwd_eq: "cwd t = cwd s \<Longrightarrow> confined s \<Longrightarrow> confined t"
  by (simp add: confined_def)

lemma dispatch_confined:
  assumes "confined s"
  shows "confined (stateOf (dispatch caps parts s))"
proof (cases "commandName parts = Some ''up''")
  case True
  then show ?thesis using assms by (simp add: dispatch_def goUp_confined)
next
  case notup: False
  show ?thesis
  proof (cases "commandName parts = Some ''cd''")
    case True
    then show ?thesis using assms by (simp add: dispatch_def changeDir_confined)
  next
    case False
    then show ?thesis using notup assms cwd_dispatch_other confined_cwd_eq by blast
  qed
qed

lemma handleLine_confined:
  assumes "confined s"
  shows "confined (stateOf (handleLine caps line s))"
proof -
  have "cwd (stateOf (handleLine caps line s)) = cwd s \<or>
        cwd (stateOf (handleLine caps line s)) = cwd (stateOf (dispatch caps (tokens (trim line)) s))"
    by (cases "dispatch caps (tokens (trim line)) s")
       (simp_all add: handleLine_def exitAndCleanup_def Let_def)
  then show ?thesis
    using assms dispatch_confined [OF assms, of caps "tokens (trim line)"] confined_cwd_eq
    by metis
qed

text \<open>
  C1. Start from a working directory that is absolute and is the root captured at start,
  \<open>rootOf (cwd s)\<close>, or a descendant of it. Then after every prefix of every sequence
  of \<open>up\<close> and \<open>cd\<close> operations, whatever the file system answers, the working directory
  still has that root and is that root or a descendant of it; and \<open>up\<close> in a working
  directory equal to its own root changes nothing.
\<close>

theorem root_confinement:
  assumes "isAbsolute (cwd s)" and "rootOrDescendant (rootOf (cwd s)) (cwd s)"
  shows "(\<forall>n. rootOf (cwd (navigate caps (take n ops) s)) = rootOf (cwd s) \<and>
              rootOrDescendant (rootOf (cwd s)) (cwd (navigate caps (take n ops) s))) \<and>
         (\<forall>t :: 'fs session. cwd t = rootOf (cwd t) \<longrightarrow> goUp t = Returned t)"
proof -
  have "confined s" using assms by (simp add: confined_def rootOf_def)
  then have "confined (navigate caps (take n ops) s)" for n by (rule navigate_confined)
  then have "\<forall>n. rootOf (cwd (navigate caps (take n ops) s)) = rootOf (cwd s) \<and>
              rootOrDescendant (rootOf (cwd s)) (cwd (navigate caps (take n ops) s))"
    using assms(1) by (simp add: confined_def rootOf_def)
  moreover have "\<forall>t :: 'fs session. cwd t = rootOf (cwd t) \<longrightarrow> goUp t = Returned t"
    by (simp add: goUp_def Let_def)
  ultimately show ?thesis by blast
qed

theorem root_confinement_witness:
  "isAbsolute (cwd exampleSession) \<and>
   rootOrDescendant ''/'' (cwd exampleSession) \<and>
   rootOrDescendant ''/''
     (cwd (navigate exampleCaps (take 2 [Cd ''sub'', Cd ''../../../..'', Up]) exampleSession)) \<and>
   goUp (exampleSession\<lparr>cwd := ''/''\<rparr>) = Returned (exampleSession\<lparr>cwd := ''/''\<rparr>)"
proof -
  have h1: "isAbsolute (cwd exampleSession)" by code_simp
  have r: "rootOf (cwd exampleSession) = ''/''" by code_simp
  have h2: "rootOrDescendant (rootOf (cwd exampleSession)) (cwd exampleSession)" by code_simp
  have r2: "cwd (exampleSession\<lparr>cwd := ''/''\<rparr>) = rootOf (cwd (exampleSession\<lparr>cwd := ''/''\<rparr>))"
    by (simp add: rootOf_def isAbsolute_def)
  have "rootOrDescendant (rootOf (cwd exampleSession))
          (cwd (navigate exampleCaps (take 2 [Cd ''sub'', Cd ''../../../..'', Up]) exampleSession))"
    and "goUp (exampleSession\<lparr>cwd := ''/''\<rparr>) = Returned (exampleSession\<lparr>cwd := ''/''\<rparr>)"
    using root_confinement [OF h1 h2, of exampleCaps "[Cd ''sub'', Cd ''../../../..'', Up]"] r2
    by blast+
  then show ?thesis using h1 h2 r by simp
qed

section \<open>Parent and last name of a normalized path\<close>

lemma dirnameEnd_Cons:
  "dirnameEnd (x # rest) =
     (if dropWhile (\<lambda>c. c \<noteq> CHR ''/'') (dropWhile (\<lambda>c. c = CHR ''/'') (rev rest)) = []
      then None
      else Some (length (dropWhile (\<lambda>c. c \<noteq> CHR ''/'')
                           (dropWhile (\<lambda>c. c = CHR ''/'') (rev rest)))))"
  unfolding dirnameEnd_def Let_def list.sel by (rule refl)

lemma dropWhile_separators_name:
  assumes "properName n"
  shows "dropWhile (\<lambda>c. c = CHR ''/'') (rev n @ ys) = rev n @ ys"
proof -
  obtain a as where r: "rev n = a # as"
    using assms by (cases "rev n") (auto simp: properName_def)
  then have "a \<in> set n" by (metis list.set_intros(1) set_rev)
  then have "a \<noteq> CHR ''/''" using assms by (auto simp: properName_def)
  then show ?thesis using r by simp
qed

lemma dropWhile_name:
  assumes "properName n"
  shows "dropWhile (\<lambda>c. c \<noteq> CHR ''/'') (rev n @ ys) = dropWhile (\<lambda>c. c \<noteq> CHR ''/'') ys"
  using assms by (intro dropWhile_append2) (auto simp: properName_def)

lemma takeWhile_name:
  assumes "properName n"
  shows "takeWhile (\<lambda>c. c \<noteq> CHR ''/'') (rev n @ CHR ''/'' # ys) = rev n"
proof -
  have "\<forall>c \<in> set (rev n). c \<noteq> CHR ''/''" using assms by (auto simp: properName_def)
  then show ?thesis by (simp add: takeWhile_tail)
qed

lemma scan_last_name:
  assumes "properName n"
  shows "dropWhile (\<lambda>c. c \<noteq> CHR ''/'')
           (dropWhile (\<lambda>c. c = CHR ''/'') (rev (pre @ n @ (if tr then ''/'' else [])))) =
         dropWhile (\<lambda>c. c \<noteq> CHR ''/'') (rev pre)"
proof (cases tr)
  case True
  have "rev (pre @ n @ ''/'') = CHR ''/'' # (rev n @ rev pre)" by simp
  then show ?thesis
    using True dropWhile_separators_name [OF assms, of "rev pre"]
      dropWhile_name [OF assms, of "rev pre"] by simp
next
  case False
  have "rev (pre @ n @ []) = rev n @ rev pre" by simp
  then show ?thesis
    using False dropWhile_separators_name [OF assms, of "rev pre"]
      dropWhile_name [OF assms, of "rev pre"] by simp
qed

lemma dirnameEnd_last_name:
  assumes "properName n"
  shows "dirnameEnd (x # pre @ n @ (if tr then ''/'' else [])) =
           (if dropWhile (\<lambda>c. c \<noteq> CHR ''/'') (rev pre) = [] then None
            else Some (length (dropWhile (\<lambda>c. c \<noteq> CHR ''/'') (rev pre))))"
  by (simp only: dirnameEnd_Cons scan_last_name [OF assms])

lemma dirname_absPath:
  assumes "list_all properName names"
  shows "dirname (absPath names tr) = absPath (butlast names) False"
proof (cases names rule: rev_cases)
  case Nil
  have "dirnameEnd ''/'' = None" unfolding dirnameEnd_Cons by simp
  then show ?thesis using Nil by (simp add: absPath_def dirname_def)
next
  case (snoc ns n)
  then have n: "properName n" and ns: "list_all properName ns" using assms by simp_all
  show ?thesis
  proof (cases "ns = []")
    case True
    have p: "absPath names tr = CHR ''/'' # [] @ n @ (if tr then ''/'' else [])"
      using snoc True by (simp add: absPath_def)
    have "dirnameEnd (CHR ''/'' # [] @ n @ (if tr then ''/'' else [])) = None"
      unfolding dirnameEnd_last_name [OF n] by simp
    then have "dirname (absPath names tr) = ''/''"
      unfolding p by (simp add: dirname_def)
    then show ?thesis using snoc True by (simp add: absPath_def)
  next
    case False
    let ?j = "joinWith ''/'' ns"
    have jne: "?j \<noteq> []" using ns False by (rule joinWith_proper_nonempty)
    define rest where "rest = (?j @ ''/'') @ n @ (if tr then ''/'' else [])"
    have p: "absPath names tr = CHR ''/'' # rest"
      using snoc False by (simp add: absPath_def joinWith_snoc rest_def)
    have dw: "dropWhile (\<lambda>c. c \<noteq> CHR ''/'') (rev (?j @ ''/'')) = CHR ''/'' # rev ?j"
      by simp
    have e: "dirnameEnd (CHR ''/'' # rest) = Some (Suc (length ?j))"
      unfolding rest_def dirnameEnd_last_name [OF n] dw by simp
    have tk: "take (Suc (length ?j)) (CHR ''/'' # rest) = CHR ''/'' # ?j"
      by (simp add: rest_def)
    have "dirname (absPath names tr) = CHR ''/'' # ?j"
      unfolding p using jne tk by (simp add: dirname_def e del: take_Suc_Cons)
    then show ?thesis using snoc False by (simp add: absPath_def)
  qed
qed

lemma absPath_nonempty [simp]: "absPath names tr \<noteq> []"
  by (simp add: absPath_def)

lemma join_absPath_name:
  assumes "list_all properName names" and "properName n"
  shows "join [absPath names False, n] = absPath (names @ [n]) False"
proof -
  have nne: "n \<noteq> []" using assms(2) by (simp add: properName_def)
  then have j: "join [absPath names False, n] = normalizePath (absPath names False @ CHR ''/'' # n)"
    by (simp add: join_def)
  show ?thesis
  proof (cases "names = []")
    case True
    have sp: "split CHR ''/'' n = [n]"
      using assms(2) by (simp add: split_no_separator properName_def)
    have mem: "last n \<in> set n" using nne by (rule last_in_set)
    have nosep: "CHR ''/'' \<notin> set n" using assms(2) by (simp add: properName_def)
    have "last n \<noteq> CHR ''/''" using mem nosep by metis
    then have "normalizePath (CHR ''/'' # CHR ''/'' # n) = CHR ''/'' # n"
      using nne sp assms(2)
      by (simp add: normalizePath_def normalizeString_def normalizeStep_proper)
    then show ?thesis using j True by (simp add: absPath_def)
  next
    case False
    then have "absPath names False @ CHR ''/'' # n = absPath (names @ [n]) False"
      by (simp add: absPath_def joinWith_snoc)
    then show ?thesis using j assms by (simp add: normalizePath_absPath)
  qed
qed

lemma basename_absPath_name:
  assumes "properName n"
  shows "basename (absPath (names @ [n]) False) = n"
proof -
  have "\<exists>ys. rev (absPath (names @ [n]) False) = rev n @ CHR ''/'' # ys"
    by (cases "names = []") (simp_all add: absPath_def joinWith_snoc)
  then obtain ys where r: "rev (absPath (names @ [n]) False) = rev n @ CHR ''/'' # ys" by blast
  show ?thesis
    unfolding basename_def r
    using dropWhile_separators_name [OF assms] takeWhile_name [OF assms] by simp
qed

text \<open>
  C8, as the program behaves. With an absolute working directory, an old path and a new
  name that is a proper name (not empty, no separator, neither \<open>.\<close> nor \<open>..\<close>),
  \<open>rn\<close> invokes exactly one capability, the rename of the resolved old path to a
  destination that is a direct child of the old path's parent directory and whose last
  name is the new name.
\<close>

theorem rename_stays_in_place:
  assumes "isAbsolute (cwd s)" and "oldP \<noteq> []" and "properName newName"
  shows "calls (stateOf (renameFile caps (Some oldP) newName s)) =
           calls s @ [Rename (safeResolve (cwd s) oldP)
                             (join [dirname (safeResolve (cwd s) oldP), newName])] \<and>
         dirname (join [dirname (safeResolve (cwd s) oldP), newName]) =
           dirname (safeResolve (cwd s) oldP) \<and>
         basename (join [dirname (safeResolve (cwd s) oldP), newName]) = newName"
proof -
  obtain names tr where sh: "list_all properName names"
      "safeResolve (cwd s) oldP = absPath names tr"
    using safeResolve_shape [OF assms(1)] by blast
  have bl: "list_all properName (butlast names)"
    using sh(1) by (auto simp: list_all_iff dest: in_set_butlastD)
  have d: "dirname (safeResolve (cwd s) oldP) = absPath (butlast names) False"
    using sh by (simp add: dirname_absPath)
  have j: "join [dirname (safeResolve (cwd s) oldP), newName] =
             absPath (butlast names @ [newName]) False"
    using d join_absPath_name [OF bl assms(3)] by simp
  have "newName \<noteq> []" using assms(3) by (simp add: properName_def)
  then have "calls (stateOf (renameFile caps (Some oldP) newName s)) =
           calls s @ [Rename (safeResolve (cwd s) oldP)
                             (join [dirname (safeResolve (cwd s) oldP), newName])]"
    using assms(2)
    by (simp add: renameFile_def falsy_def Let_def invoke_def operationFailed_def
        consoleLog_def split: prod.splits)
  moreover have "dirname (join [dirname (safeResolve (cwd s) oldP), newName]) =
           dirname (safeResolve (cwd s) oldP)"
    using j d bl assms(3) dirname_absPath [of "butlast names @ [newName]" False] by simp
  moreover have "basename (join [dirname (safeResolve (cwd s) oldP), newName]) = newName"
    using j basename_absPath_name [OF assms(3)] by simp
  ultimately show ?thesis by blast
qed

theorem rename_stays_in_place_witness:
  "calls (stateOf (renameFile exampleCaps (Some ''a.txt'') ''b c.txt'' exampleSession)) =
     [Rename ''/home/u/a.txt'' ''/home/u/b c.txt''] \<and>
   dirname ''/home/u/b c.txt'' = dirname ''/home/u/a.txt'' \<and>
   basename ''/home/u/b c.txt'' = ''b c.txt''"
proof -
  have h1: "isAbsolute (cwd exampleSession)" by code_simp
  have h2: "''a.txt'' \<noteq> []" by simp
  have h3: "properName ''b c.txt''" by (simp add: properName_def)
  have e1: "safeResolve (cwd exampleSession) ''a.txt'' = ''/home/u/a.txt''" by code_simp
  have e2: "join [dirname ''/home/u/a.txt'', ''b c.txt''] = ''/home/u/b c.txt''" by code_simp
  have e3: "calls exampleSession = []" by (simp add: exampleSession_def)
  show ?thesis
    using rename_stays_in_place [OF h1 h2 h3, of exampleCaps] e1 e2 e3 by simp
qed

text \<open>
  C8, as the claim states it, fails: the new name \<open>../b.txt\<close> takes the entry out of its
  parent directory. In the example session \<open>rn a.txt ../b.txt\<close> renames
  \<open>/home/u/a.txt\<close> to \<open>/home/b.txt\<close>.
\<close>

theorem rename_moves_out_of_parent:
  "calls (stateOf (handleLine exampleCaps ''rn a.txt ../b.txt'' exampleSession)) =
     [Rename ''/home/u/a.txt'' ''/home/b.txt''] \<and>
   dirname ''/home/u/a.txt'' = ''/home/u'' \<and> dirname ''/home/b.txt'' = ''/home''"
  by code_simp

section \<open>Joining onto the working directory\<close>

lemma foldl_normalizeStep_no_parent:
  "''..'' \<notin> set xs \<Longrightarrow>
   foldl (normalizeStep a) res xs = rev (filter (\<lambda>seg. seg \<noteq> [] \<and> seg \<noteq> ''.'') xs) @ res"
  by (induction xs arbitrary: res) (auto simp: normalizeStep_def)

lemma joinWith_append:
  "xs \<noteq> [] \<Longrightarrow> ys \<noteq> [] \<Longrightarrow> joinWith sep (xs @ ys) = joinWith sep xs @ sep @ joinWith sep ys"
  by (induction sep xs rule: joinWith.induct) (simp_all add: joinWith_Cons)

lemma absPath_longer:
  assumes "list_all properName xs" and "xs \<noteq> []"
  shows "length (absPath ys tr) < length (absPath (xs @ ys) tr)"
proof (cases "ys = []")
  case True
  have "joinWith ''/'' xs \<noteq> []" using assms by (rule joinWith_proper_nonempty)
  then have "0 < length (joinWith ''/'' xs)" by simp
  then show ?thesis using True by (simp add: absPath_def)
next
  case False
  then show ?thesis using assms(2) by (simp add: absPath_def joinWith_append)
qed

lemma join_differs_from_absolute:
  assumes c: "isAbsolute c" and notroot: "normalizePath c \<noteq> ''/''"
    and a: "isAbsolute arg" and nop: "''..'' \<notin> set (split CHR ''/'' arg)"
  shows "join [c, arg] \<noteq> normalizePath arg"
proof -
  let ?A = "foldl (normalizeStep False) [] (split CHR ''/'' c)"
  let ?B = "filter (\<lambda>seg. seg \<noteq> [] \<and> seg \<noteq> ''.'') (split CHR ''/'' arg)"
  have cne: "c \<noteq> []" and ane: "arg \<noteq> []" using c a by (auto simp: isAbsolute_def)
  have A: "list_all properName ?A" "normalizePath c = absPath (rev ?A) (last c = CHR ''/'')"
    using normalizePath_absolute_stack [OF c] by simp_all
  have Ane: "?A \<noteq> []"
  proof
    assume "?A = []"
    then have "normalizePath c = ''/''" using A(2) by (simp add: absPath_def)
    then show False using notroot by simp
  qed
  have argstack: "foldl (normalizeStep False) [] (split CHR ''/'' arg) = rev ?B"
    using foldl_normalizeStep_no_parent [OF nop, of False "[]"] by simp
  have na: "normalizePath arg = absPath ?B (last arg = CHR ''/'')"
    using normalizePath_absolute_stack [OF a] argstack by simp
  have jabs: "isAbsolute (c @ CHR ''/'' # arg)"
    using c by (cases c) (auto simp: isAbsolute_def)
  have "foldl (normalizeStep False) [] (split CHR ''/'' (c @ CHR ''/'' # arg)) = rev ?B @ ?A"
    using foldl_normalizeStep_no_parent [OF nop, of False ?A] by (simp add: split_append)
  then have nj: "normalizePath (c @ CHR ''/'' # arg) = absPath (rev ?A @ ?B) (last arg = CHR ''/'')"
    using normalizePath_absolute_stack [OF jabs] ane by simp
  have "join [c, arg] = normalizePath (c @ CHR ''/'' # arg)"
    using cne ane by (simp add: join_def)
  then have "length (normalizePath arg) < length (join [c, arg])"
    using nj na absPath_longer [of "rev ?A" ?B "last arg = CHR ''/''"] A(1) Ane by simp
  then show ?thesis by auto
qed

text \<open>
  C10, as the program behaves. \<open>add\<close> and \<open>mkdir\<close> with an argument invoke one
  capability, on the raw argument joined onto the working directory; the resolver is not
  used. For an absolute argument without a \<open>..\<close> segment and an absolute working
  directory that is not the root, that target differs from the absolute location the
  resolver would give.
\<close>

theorem create_targets_cwd_joined:
  assumes "arg \<noteq> []"
  shows "calls (stateOf (addFile caps arg s)) = calls s @ [OpenExclusive (join [cwd s, arg])] \<and>
         calls (stateOf (makeDir caps arg s)) = calls s @ [Mkdir (join [cwd s, arg])] \<and>
         (isAbsolute (cwd s) \<and> normalizePath (cwd s) \<noteq> ''/'' \<and> isAbsolute arg \<and>
          ''..'' \<notin> set (split CHR ''/'' arg) \<longrightarrow>
            join [cwd s, arg] \<noteq> safeResolve (cwd s) arg)"
proof (intro conjI impI)
  show "calls (stateOf (addFile caps arg s)) = calls s @ [OpenExclusive (join [cwd s, arg])]"
    using assms
    by (simp add: addFile_def Let_def invoke_def operationFailed_def consoleLog_def
        split: prod.splits)
  show "calls (stateOf (makeDir caps arg s)) = calls s @ [Mkdir (join [cwd s, arg])]"
    using assms
    by (simp add: makeDir_def Let_def invoke_def operationFailed_def consoleLog_def
        split: prod.splits)
next
  assume h: "isAbsolute (cwd s) \<and> normalizePath (cwd s) \<noteq> ''/'' \<and> isAbsolute arg \<and>
          ''..'' \<notin> set (split CHR ''/'' arg)"
  then have "safeResolve (cwd s) arg = normalizePath arg"
    by (simp add: safeResolve_absolute)
  then show "join [cwd s, arg] \<noteq> safeResolve (cwd s) arg"
    using h join_differs_from_absolute [of "cwd s" arg] by simp
qed

theorem create_targets_cwd_joined_witness:
  "calls (stateOf (addFile exampleCaps ''/tmp/x'' exampleSession)) =
     [OpenExclusive ''/home/u/tmp/x''] \<and>
   calls (stateOf (makeDir exampleCaps ''/tmp/x'' exampleSession)) =
     [Mkdir ''/home/u/tmp/x''] \<and>
   join [''/home/u'', ''/tmp/x''] \<noteq> safeResolve ''/home/u'' ''/tmp/x''"
proof -
  have h: "''/tmp/x'' \<noteq> []" by simp
  have c: "cwd exampleSession = ''/home/u''" "calls exampleSession = []"
    by (simp_all add: exampleSession_def)
  have j: "join [''/home/u'', ''/tmp/x''] = ''/home/u/tmp/x''" by code_simp
  have p: "isAbsolute ''/home/u'' \<and> normalizePath ''/home/u'' \<noteq> ''/'' \<and>
      isAbsolute ''/tmp/x'' \<and> ''..'' \<notin> set (split CHR ''/'' ''/tmp/x'')"
    by code_simp
  show ?thesis
    using create_targets_cwd_joined [OF h, of exampleCaps exampleSession] c j p by simp
qed

text \<open>
  C10, as the claim states it, fails when the working directory is the root: after
  \<open>cd /\<close> the line \<open>add /tmp/x\<close> targets \<open>/tmp/x\<close>, the absolute location itself.
\<close>

theorem add_at_root_targets_absolute_location:
  "cwd (stateOf (handleLine exampleCaps ''cd /'' exampleSession)) = ''/'' \<and>
   calls (stateOf (handleLine exampleCaps ''add /tmp/x''
                     (stateOf (handleLine exampleCaps ''cd /'' exampleSession)))) =
     [Stat ''/'', OpenExclusive ''/tmp/x''] \<and>
   safeResolve ''/'' ''/tmp/x'' = ''/tmp/x''"
  by code_simp

section \<open>Spaces between tokens\<close>




lemma isWhiteSpace_space [simp]: "isWhiteSpace CHR '' ''"
  by (simp add: isWhiteSpace_def)















end
